theory Spec2Isabelle
  imports Complex_Main "HOL-Library.Word"
begin

section \<open>Strings of the host language\<close>

text \<open>
  A string of the source is a sequence of UTF-16 code units; \<open>length\<close> counts code
  units, as \<open>String.prototype.length\<close> does. Literals of the source that are plain ASCII
  are written with \<open>asc\<close>; the Turkish letters are given by their code units.
\<close>

type_synonym jschar = "16 word"
type_synonym jsstring = "jschar list"

definition asc :: "string \<Rightarrow> jsstring" where
  "asc s = map of_char s"

definition spaceChar :: jschar where
  "spaceChar = 0x20"

text \<open>
  The white space of \<open>String.prototype.trim\<close> and of the regular expression class
  \<open>\s\<close> (the same set: WhiteSpace and LineTerminator of ECMAScript).
\<close>

definition isSpace :: "jschar \<Rightarrow> bool" where
  "isSpace c =
     (c = 0x9 \<or> c = 0xA \<or> c = 0xB \<or> c = 0xC \<or> c = 0xD \<or> c = 0x20 \<or> c = 0xA0 \<or>
      c = 0x1680 \<or> (0x2000 \<le> c \<and> c \<le> 0x200A) \<or> c = 0x2028 \<or> c = 0x2029 \<or>
      c = 0x202F \<or> c = 0x205F \<or> c = 0x3000 \<or> c = 0xFEFF)"

definition trim :: "jsstring \<Rightarrow> jsstring" where
  "trim s = rev (dropWhile isSpace (rev (dropWhile isSpace s)))"

text \<open>
  \<open>s.split(/\s+/)\<close>: the pieces between maximal runs of white space. A string that
  starts (ends) with white space has an empty first (last) piece, and the empty string
  splits into one empty piece.
\<close>

function splitWs :: "jsstring \<Rightarrow> jsstring list" where
  "splitWs s =
     (let w = takeWhile (\<lambda>c. \<not> isSpace c) s;
          r = dropWhile (\<lambda>c. \<not> isSpace c) s
      in if r = [] then [w] else w # splitWs (dropWhile isSpace r))"
  by pat_completeness auto
termination
proof (relation "measure length")
  show "wf (measure length)" by simp
next
  fix s :: jsstring and w r
  assume r: "r = dropWhile (\<lambda>c. \<not> isSpace c) s" and ne: "r \<noteq> []"
  from ne obtain c cs where rc: "r = c # cs" by (cases r) auto
  have "\<not> \<not> isSpace (hd (dropWhile (\<lambda>c. \<not> isSpace c) s))"
    using ne unfolding r by (rule hd_dropWhile)
  with r rc have "isSpace c" by (metis list.sel(1))
  with rc have "length (dropWhile isSpace r) \<le> length cs"
    by (simp add: length_dropWhile_le)
  moreover have "length r \<le> length s"
    unfolding r by (rule length_dropWhile_le)
  ultimately show "(dropWhile isSpace r, s) \<in> measure length"
    using rc by simp
qed

declare splitWs.simps [simp del]

section \<open>Word wrap (\<open>wrapTextToWidth\<close>)\<close>

text \<open>One round of the \<open>forEach\<close> over the words: the state is \<open>(result, current)\<close>.\<close>

definition wrapStep :: "int \<Rightarrow> jsstring list \<times> jsstring \<Rightarrow> jsstring \<Rightarrow> jsstring list \<times> jsstring" where
  "wrapStep width st word =
     (let result = fst st; current = snd st in
      if word = [] then (result, current)
      else if current = [] then (result, word)
      else if int (length (current @ [spaceChar] @ word)) \<le> width
        then (result, current @ [spaceChar] @ word)
      else (result @ [current], word))"

definition wrapTextToWidth :: "jsstring \<Rightarrow> int \<Rightarrow> jsstring list" where
  "wrapTextToWidth v width =
     (let safe = trim v in
      if safe = [] then []
      else if int (length safe) \<le> width then [safe]
      else
        (let wordsList = splitWs safe;
             st = foldl (wrapStep width) ([], []) wordsList;
             result = fst st; current = snd st
         in if current \<noteq> [] then result @ [current] else result))"


section \<open>Numbers and money (\<open>utils/money.ts\<close>, \<open>formatReceiptMoney\<close>)\<close>

text \<open>
  A \<open>number\<close> that is an amount of money is a real here: the arithmetic of the
  source is read as exact, and the non-finite values (NaN, the infinities) and the
  rounding of IEEE doubles are outside the model. \<open>Number.isFinite(v) ? Number(v) : 0\<close>
  is therefore \<open>v\<close>. The widths and indents of the receipt are character counts and
  are integers.

  \<open>Number.prototype.toString\<close> prints the shortest decimal that reads back as the same
  double; that is a property of doubles, so the functions that need it take it as the
  parameter \<open>numberToString\<close>.
\<close>

definition digitChar :: "nat \<Rightarrow> jschar" where
  "digitChar d = of_nat (48 + d)"

function digitsOf :: "nat \<Rightarrow> jsstring" where
  "digitsOf n = (if n < 10 then [digitChar n] else digitsOf (n div 10) @ [digitChar (n mod 10)])"
  by pat_completeness auto
termination
  by (relation "measure id") auto

declare digitsOf.simps [simp del]

text \<open>
  \<open>Number.prototype.toFixed(f)\<close> on the exact value: the integer \<open>n\<close> nearest to
  \<open>x * 10^f\<close> (the larger one on a tie), printed with \<open>f\<close> decimals; from \<open>10^21\<close>
  on, the number's own string.
\<close>

definition toFixed :: "(real \<Rightarrow> jsstring) \<Rightarrow> real \<Rightarrow> nat \<Rightarrow> jsstring" where
  "toFixed numberToString x f =
     (let s = (if x < 0 then asc ''-'' else []);
          a = \<bar>x\<bar>
      in if 10 ^ 21 \<le> a then s @ numberToString a
         else
           (let n = nat \<lfloor>a * 10 ^ f + 1 / 2\<rfloor>;
                m = digitsOf n
            in if f = 0 then s @ m
               else
                 (let m' = replicate (f + 1 - length m) (digitChar 0) @ m;
                      k = length m'
                  in s @ take (k - f) m' @ asc ''.'' @ drop (k - f) m')))"

text \<open>
  \<open>String.prototype.toUpperCase\<close>, exact on every code unit whose upper case is one
  ASCII letter (a to z, the dotless i U+0131 and the long s U+017F); the other code
  units are left as they are. The receipt builder only compares the result with the
  four currency codes, and on that comparison the two agree.
\<close>

definition upperUnit :: "jschar \<Rightarrow> jschar" where
  "upperUnit c =
     (if 0x61 \<le> c \<and> c \<le> 0x7A then c - 0x20
      else if c = 0x131 then 0x49
      else if c = 0x17F then 0x53
      else c)"

definition toUpperCase :: "jsstring \<Rightarrow> jsstring" where
  "toUpperCase s = map upperUnit s"

definition formatReceiptMoney :: "(real \<Rightarrow> jsstring) \<Rightarrow> real \<Rightarrow> jsstring option \<Rightarrow> jsstring" where
  "formatReceiptMoney numberToString v currency =
     (let normalizedCurrency = (case currency of None \<Rightarrow> asc ''TRY'' | Some c \<Rightarrow> toUpperCase c);
          displayCurrency = (if normalizedCurrency = asc ''TRY'' then asc ''TL'' else normalizedCurrency);
          amount = toFixed numberToString \<bar>v\<bar> 2;
          formatted = amount @ (if displayCurrency \<noteq> [] then asc '' '' @ displayCurrency else [])
      in if v < 0 then asc ''-'' @ formatted else formatted)"

definition epsilonDefault :: real where
  "epsilonDefault = 5 / 1000"

definition hasMeaningfulAmount :: "real \<Rightarrow> real \<Rightarrow> bool" where
  "hasMeaningfulAmount v epsilon = (epsilon \<le> \<bar>v\<bar>)"

text \<open>
  \<open>formatPercentage\<close>: \<open>Number(Math.abs(v).toFixed(2))\<close> is the value rounded to two
  decimals (from \<open>10^21\<close> on, the value itself); a whole result is printed by
  \<open>toFixed(0)\<close>, any other by the number's own string. The result is never \<open>null\<close>
  here, since every number of the model is finite.
\<close>

definition formatPercentage :: "(real \<Rightarrow> jsstring) \<Rightarrow> real \<Rightarrow> jsstring option" where
  "formatPercentage numberToString v =
     (let normalized =
            (if 10 ^ 21 \<le> \<bar>v\<bar> then \<bar>v\<bar> else real_of_int \<lfloor>\<bar>v\<bar> * 100 + 1 / 2\<rfloor> / 100)
      in Some (if normalized = real_of_int \<lfloor>normalized\<rfloor>
               then toFixed numberToString normalized 0
               else numberToString normalized))"

datatype CurrencyCode = TRY | USD | EUR | GBP

definition codeString :: "CurrencyCode \<Rightarrow> jsstring" where
  "codeString c = (case c of TRY \<Rightarrow> asc ''TRY'' | USD \<Rightarrow> asc ''USD'' | EUR \<Rightarrow> asc ''EUR'' | GBP \<Rightarrow> asc ''GBP'')"

text \<open>
  \<open>Rates\<close> is a record keyed by currency code; a key may be absent, and the table
  itself may be undefined (\<open>rates?.[code]\<close>).
\<close>

type_synonym Rates = "CurrencyCode \<Rightarrow> real option"

definition rateOf :: "Rates option \<Rightarrow> CurrencyCode \<Rightarrow> real option" where
  "rateOf rs code = (case rs of None \<Rightarrow> None | Some m \<Rightarrow> m code)"

definition toTRY :: "real \<Rightarrow> CurrencyCode \<Rightarrow> Rates option \<Rightarrow> real" where
  "toTRY amountFX code rs =
     (if amountFX = 0 then 0
      else if code = TRY then amountFX
      else (case rateOf rs code of
              None \<Rightarrow> 0
            | Some r \<Rightarrow> if r \<noteq> 0 \<and> r > 0 then amountFX * r else 0))"

definition fromTRY :: "real \<Rightarrow> CurrencyCode \<Rightarrow> Rates option \<Rightarrow> real" where
  "fromTRY amountTRY code rs =
     (if amountTRY = 0 then 0
      else if code = TRY then amountTRY
      else (case rateOf rs code of
              None \<Rightarrow> amountTRY
            | Some r \<Rightarrow> if r \<noteq> 0 \<and> r > 0 then amountTRY / r else amountTRY))"


section \<open>The data of a receipt\<close>

text \<open>
  A field declared \<open>f?: T\<close> is an \<open>option\<close>; a field declared \<open>f?: T | null\<close> is a
  \<open>nullable\<close>, since a destructuring default replaces \<open>undefined\<close> but not \<open>null\<close>.
\<close>

datatype 'a nullable = Undefined | Null | Val 'a

datatype Preset = PresetNormal | PresetMedium | PresetLarge

datatype Align = AlignLeft | AlignCenter | AlignRight

text \<open>
  Modelled from the spec: the type \<open>ReceiptContentLine\<close> is declared in
  \<open>hooks/useThermalPrinter\<close>, which is not part of the sources. It is the tagged variant
  of the data model: a text line (string, optional preset, optional alignment), a
  two-column line (left, right, indent, width, optional preset), a separator (optional
  fill character, length) and a run of blank lines (count). The fields are those of
  the object literals in \<open>buildStandardReceiptLines\<close>.
\<close>

datatype ReceiptContentLine =
    TextLine jsstring "Preset option" "Align option"
  | ColumnsLine jsstring jsstring int int "Preset option"
  | SeparatorLine "jschar option" int
  | EmptyLine nat

record ReceiptItem =
  itemName :: jsstring
  quantity :: real
  unitPrice :: real
  itemCurrency :: jsstring
  itemSubtotal :: "real option"

datatype MetaValue = MetaString jsstring | MetaNumber real

record ReceiptMetaRow =
  rowLabel :: jsstring
  rowValue :: "MetaValue nullable"

text \<open>
  \<open>paid\<close> and \<open>remaining\<close> are declared as numbers, but the function guards both
  against \<open>undefined\<close> and \<open>null\<close>; they are optional here so that the guarded branch is
  part of the model.
\<close>

record BuildReceiptLinesOptions =
  tenantHeaderLines :: "ReceiptContentLine list option"
  title :: "jsstring option"
  orderNumber :: "jsstring nullable"
  createdAtText :: "jsstring nullable"
  customerName :: "jsstring nullable"
  sellerName :: "jsstring nullable"
  extraMetaRows :: "ReceiptMetaRow list option"
  items :: "ReceiptItem list"
  itemsEmptyMessage :: "jsstring option"
  subtotal :: real
  totalDiscount :: real
  totalTax :: real
  orderTotal :: real
  paid :: "real option"
  remaining :: "real option"
  paymentLabel :: "jsstring nullable"
  thankYouMessage :: "jsstring nullable"
  receiptWidth :: int
  receiptIndent :: int
  currency :: "jsstring option"
  changeAmount :: "real option"
  targetCurrency :: "jsstring option"
  rates :: "Rates option"
  paidCurrency :: "jsstring option"
  summaryAlreadyTarget :: "bool option"

text \<open>The literals of the source; the Turkish letters are given by their code units.\<close>

definition strSatisFisi :: jsstring where
  "strSatisFisi = asc ''Sat'' @ [0x131, 0x15F] @ asc '' Fi'' @ [0x15F] @ asc ''i''"

definition strUrunBulunamadi :: jsstring where
  "strUrunBulunamadi = [0xDC] @ asc ''r'' @ [0xFC] @ asc ''n bulunamad'' @ [0x131] @ asc ''.''"

definition strTesekkur :: jsstring where
  "strTesekkur = asc ''Te'' @ [0x15F] @ asc ''ekk'' @ [0xFC] @ asc ''r ederiz!''"

definition strSiparisNo :: jsstring where
  "strSiparisNo = asc ''Sipari'' @ [0x15F] @ asc '' No''"

definition strTarih :: jsstring where
  "strTarih = asc ''Tarih''"

definition strMusteri :: jsstring where
  "strMusteri = asc ''M'' @ [0xFC, 0x15F] @ asc ''teri''"

definition strSatici :: jsstring where
  "strSatici = asc ''Sat'' @ [0x131] @ asc ''c'' @ [0x131]"

definition strSiparisBilgileri :: jsstring where
  "strSiparisBilgileri = asc ''Sipari'' @ [0x15F] @ asc '' Bilgileri''"

definition strUrun :: jsstring where
  "strUrun = [0xDC] @ asc ''r'' @ [0xFC] @ asc ''n''"

definition strOdemeOzeti :: jsstring where
  "strOdemeOzeti = [0xD6] @ asc ''deme '' @ [0xD6] @ asc ''zeti''"

definition strAraToplam :: jsstring where
  "strAraToplam = asc ''Ara Toplam''"

definition strIndirim :: jsstring where
  "strIndirim = [0x130] @ asc ''ndirim''"

definition strKDV :: jsstring where
  "strKDV = asc ''KDV''"

definition strOdenen :: jsstring where
  "strOdenen = [0xD6] @ asc ''denen''"

definition strParaUstu :: jsstring where
  "strParaUstu = asc ''Para '' @ [0xDC] @ asc ''st'' @ [0xFC]"

definition strGenelToplam :: jsstring where
  "strGenelToplam = asc ''Genel Toplam''"

definition strBorc :: jsstring where
  "strBorc = asc ''Bor'' @ [0xE7]"

section \<open>The receipt builder (\<open>buildStandardReceiptLines\<close>)\<close>

text \<open>
  The local functions of \<open>buildStandardReceiptLines\<close> close over the options; here
  they take the options as an argument. The array \<open>lines\<close> they push to is passed in
  and returned.
\<close>

definition normalizeCurrency :: "jsstring option \<Rightarrow> CurrencyCode" where
  "normalizeCurrency v =
     (let normalized = (case v of None \<Rightarrow> asc ''TRY'' | Some s \<Rightarrow> toUpperCase s)
      in if normalized = asc ''TRY'' then TRY
         else if normalized = asc ''USD'' then USD
         else if normalized = asc ''EUR'' then EUR
         else if normalized = asc ''GBP'' then GBP
         else TRY)"

definition orDefault :: "'a \<Rightarrow> 'a option \<Rightarrow> 'a" where
  "orDefault d x = (case x of None \<Rightarrow> d | Some v \<Rightarrow> v)"

definition resolvedTargetCurrency :: "BuildReceiptLinesOptions \<Rightarrow> CurrencyCode" where
  "resolvedTargetCurrency opts = normalizeCurrency (Some (orDefault (asc ''TRY'') (targetCurrency opts)))"

definition convertAmount :: "BuildReceiptLinesOptions \<Rightarrow> real \<Rightarrow> jsstring option \<Rightarrow> real" where
  "convertAmount opts v from =
     (let numeric = v;
          sourceCurrency =
            normalizeCurrency (Some (case from of None \<Rightarrow> orDefault (asc ''TRY'') (currency opts) | Some f \<Rightarrow> f))
      in if sourceCurrency = resolvedTargetCurrency opts \<or> rates opts = None \<or> numeric = 0
           then numeric
         else if resolvedTargetCurrency opts = TRY
           then toTRY numeric sourceCurrency (rates opts)
         else if sourceCurrency = TRY
           then fromTRY numeric (resolvedTargetCurrency opts) (rates opts)
         else fromTRY (toTRY numeric sourceCurrency (rates opts)) (resolvedTargetCurrency opts) (rates opts))"

definition formatDisplayMoney :: "(real \<Rightarrow> jsstring) \<Rightarrow> BuildReceiptLinesOptions \<Rightarrow> real \<Rightarrow> jsstring" where
  "formatDisplayMoney numberToString opts v =
     formatReceiptMoney numberToString v (Some (codeString (resolvedTargetCurrency opts)))"

definition convertSummaryAmount :: "BuildReceiptLinesOptions \<Rightarrow> real \<Rightarrow> jsstring option \<Rightarrow> real" where
  "convertSummaryAmount opts v currencyOverride =
     (if orDefault False (summaryAlreadyTarget opts) then v
      else convertAmount opts v currencyOverride)"

definition toCenteredLine :: "BuildReceiptLinesOptions \<Rightarrow> jsstring \<Rightarrow> Preset option \<Rightarrow> ReceiptContentLine" where
  "toCenteredLine opts v preset =
     (let width = max (receiptWidth opts) 1;
          safeValue = trim v;
          txt = take (nat width) safeValue;
          padding = max (width - int (length txt)) 0;
          left = padding div 2;
          right = padding - left
      in TextLine (replicate (nat left) spaceChar @ txt @ replicate (nat right) spaceChar) preset None)"

definition pushResponsiveColumns ::
  "BuildReceiptLinesOptions \<Rightarrow> ReceiptContentLine list \<Rightarrow> jsstring \<Rightarrow> jsstring \<Rightarrow> Preset option
     \<Rightarrow> ReceiptContentLine list" where
  "pushResponsiveColumns opts lines left right preset =
     (let safeLeft = trim left;
          safeRight = trim right;
          availableWidth = max (receiptWidth opts - receiptIndent opts) 8;
          estimatedLength = int (length safeLeft) + int (length safeRight) + 2
      in if estimatedLength > availableWidth then
           (let lines1 = (if safeLeft \<noteq> [] then lines @ [TextLine safeLeft preset None] else lines);
                lines2 = (if safeRight \<noteq> []
                          then lines1 @ [ColumnsLine [] safeRight (receiptIndent opts) (receiptWidth opts) preset]
                          else lines1)
            in lines2)
         else lines @ [ColumnsLine safeLeft safeRight (receiptIndent opts) (receiptWidth opts) preset])"

definition metaValueString :: "(real \<Rightarrow> jsstring) \<Rightarrow> MetaValue \<Rightarrow> jsstring" where
  "metaValueString numberToString mv =
     (case mv of MetaString s \<Rightarrow> s | MetaNumber n \<Rightarrow> numberToString n)"

definition addMetaRow ::
  "(real \<Rightarrow> jsstring) \<Rightarrow> BuildReceiptLinesOptions \<Rightarrow> ReceiptContentLine list \<Rightarrow> jsstring
     \<Rightarrow> MetaValue nullable \<Rightarrow> Preset option \<Rightarrow> ReceiptContentLine list" where
  "addMetaRow numberToString opts lines label v preset =
     (case v of
        Undefined \<Rightarrow> lines
      | Null \<Rightarrow> lines
      | Val mv \<Rightarrow>
          if mv = MetaString [] then lines
          else
            (let availableWidth = max (receiptWidth opts - receiptIndent opts) 8;
                 wrapped = wrapTextToWidth (metaValueString numberToString mv) availableWidth
             in case wrapped of
                  [] \<Rightarrow> lines
                | first # rest \<Rightarrow>
                    foldl (\<lambda>ls line. pushResponsiveColumns opts ls [] line preset)
                      (pushResponsiveColumns opts lines label first preset) rest))"

text \<open>Truthiness of an optional string: present and not empty.\<close>

definition truthy :: "jsstring nullable \<Rightarrow> bool" where
  "truthy v = (case v of Val s \<Rightarrow> s \<noteq> [] | _ \<Rightarrow> False)"

definition valOf :: "jsstring nullable \<Rightarrow> jsstring" where
  "valOf v = (case v of Val s \<Rightarrow> s | _ \<Rightarrow> [])"

definition metaRows :: "BuildReceiptLinesOptions \<Rightarrow> ReceiptMetaRow list" where
  "metaRows opts =
     (let rows0 = [];
          rows1 = (if truthy (orderNumber opts)
                   then rows0 @ [\<lparr>rowLabel = strSiparisNo, rowValue = Val (MetaString (valOf (orderNumber opts)))\<rparr>]
                   else rows0);
          rows2 = (if truthy (createdAtText opts)
                   then rows1 @ [\<lparr>rowLabel = strTarih, rowValue = Val (MetaString (valOf (createdAtText opts)))\<rparr>]
                   else rows1);
          rows3 = (if truthy (customerName opts)
                   then rows2 @ [\<lparr>rowLabel = strMusteri, rowValue = Val (MetaString (valOf (customerName opts)))\<rparr>]
                   else rows2);
          rows4 = rows3 @
                   [\<lparr>rowLabel = strSatici,
                     rowValue = Val (MetaString (if truthy (sellerName opts) then valOf (sellerName opts) else strSatici))\<rparr>];
          rows5 = (if orDefault [] (extraMetaRows opts) \<noteq> [] then rows4 @ orDefault [] (extraMetaRows opts) else rows4)
      in rows5)"

definition totalDisplay :: "BuildReceiptLinesOptions \<Rightarrow> real" where
  "totalDisplay opts = convertSummaryAmount opts (orderTotal opts) None"

definition paidRaw :: "BuildReceiptLinesOptions \<Rightarrow> real" where
  "paidRaw opts = (case paid opts of None \<Rightarrow> orderTotal opts | Some p \<Rightarrow> p)"

definition resolvedPaid :: "BuildReceiptLinesOptions \<Rightarrow> real" where
  "resolvedPaid opts = convertSummaryAmount opts (paidRaw opts) (paidCurrency opts)"

definition remainingRaw :: "BuildReceiptLinesOptions \<Rightarrow> real" where
  "remainingRaw opts =
     (case remaining opts of
        Some r \<Rightarrow> max r 0
      | None \<Rightarrow> max (orderTotal opts - paidRaw opts) 0)"

definition resolvedRemaining :: "BuildReceiptLinesOptions \<Rightarrow> real" where
  "resolvedRemaining opts = convertSummaryAmount opts (remainingRaw opts) None"

definition hasOutstandingDebt :: "BuildReceiptLinesOptions \<Rightarrow> bool" where
  "hasOutstandingDebt opts = hasMeaningfulAmount (resolvedRemaining opts) epsilonDefault"

definition displayPaidAmount :: "BuildReceiptLinesOptions \<Rightarrow> real" where
  "displayPaidAmount opts = (if hasOutstandingDebt opts then totalDisplay opts else resolvedPaid opts)"

definition resolvedChange :: "BuildReceiptLinesOptions \<Rightarrow> real" where
  "resolvedChange opts =
     (case changeAmount opts of
        Some c \<Rightarrow> convertSummaryAmount opts c None
      | None \<Rightarrow> max (resolvedPaid opts - totalDisplay opts) 0)"

text \<open>One round of \<open>safeItems.forEach((item, index) => ...)\<close>.\<close>

definition pushItem ::
  "(real \<Rightarrow> jsstring) \<Rightarrow> BuildReceiptLinesOptions \<Rightarrow> ReceiptContentLine list \<Rightarrow> nat \<times> ReceiptItem
     \<Rightarrow> ReceiptContentLine list" where
  "pushItem numberToString opts lines ix =
     (let index = fst ix; item = snd ix;
          qty = quantity item;
          displayUnitPrice = convertAmount opts (unitPrice item) (Some (itemCurrency item));
          lineSubtotal = (case itemSubtotal item of Some st \<Rightarrow> st | None \<Rightarrow> unitPrice item * quantity item);
          displaySubtotal = convertAmount opts lineSubtotal (Some (itemCurrency item));
          lines1 = (if index > 0 then lines @ [EmptyLine 1] else lines);
          lines2 = lines1 @
            [TextLine (if itemName item \<noteq> [] then itemName item else strUrun) (Some PresetMedium) (Some AlignLeft)]
      in pushResponsiveColumns opts lines2
           (numberToString qty @ asc '' x '' @ formatDisplayMoney numberToString opts displayUnitPrice)
           (formatDisplayMoney numberToString opts displaySubtotal) None)"

definition discountLabel :: "(real \<Rightarrow> jsstring) \<Rightarrow> BuildReceiptLinesOptions \<Rightarrow> jsstring" where
  "discountLabel numberToString opts =
     (let discountPercent =
            (if hasMeaningfulAmount (subtotal opts) epsilonDefault
             then formatPercentage numberToString ((totalDiscount opts / subtotal opts) * 100)
             else None)
      in case discountPercent of
           None \<Rightarrow> strIndirim
         | Some p \<Rightarrow> if p \<noteq> [] then strIndirim @ asc '' (%'' @ p @ asc '')'' else strIndirim)"

definition taxLabel :: "(real \<Rightarrow> jsstring) \<Rightarrow> BuildReceiptLinesOptions \<Rightarrow> jsstring" where
  "taxLabel numberToString opts =
     (let taxBaseAmount = max (subtotal opts - totalDiscount opts) 0;
          taxPercent =
            (if hasMeaningfulAmount taxBaseAmount epsilonDefault
             then formatPercentage numberToString ((totalTax opts / taxBaseAmount) * 100)
             else None)
      in case taxPercent of
           None \<Rightarrow> strKDV
         | Some p \<Rightarrow> if p \<noteq> [] then strKDV @ asc '' (%'' @ p @ asc '')'' else strKDV)"

definition buildStandardReceiptLines ::
  "(real \<Rightarrow> jsstring) \<Rightarrow> BuildReceiptLinesOptions \<Rightarrow> ReceiptContentLine list" where
  "buildStandardReceiptLines numberToString opts =
     (let w = receiptWidth opts;
          fmt = formatDisplayMoney numberToString opts;
          lines0 = [];
          lines1 = (if orDefault [] (tenantHeaderLines opts) \<noteq> []
                    then lines0 @ orDefault [] (tenantHeaderLines opts) @ [SeparatorLine None w]
                    else lines0);
          lines2 = (if orDefault strSatisFisi (title opts) \<noteq> []
                    then lines1 @ [toCenteredLine opts (orDefault strSatisFisi (title opts)) (Some PresetMedium),
                                   SeparatorLine None w]
                    else lines1);
          lines3 = (if metaRows opts \<noteq> []
                    then foldl (\<lambda>ls row. addMetaRow numberToString opts ls (rowLabel row) (rowValue row) None)
                           (lines2 @ [toCenteredLine opts strSiparisBilgileri (Some PresetMedium),
                                      SeparatorLine (Some 0x2E) w])
                           (metaRows opts)
                         @ [SeparatorLine None w]
                    else lines2);
          lines4 = (if items opts = []
                    then lines3 @ [TextLine (orDefault strUrunBulunamadi (itemsEmptyMessage opts)) None (Some AlignCenter)]
                    else foldl (pushItem numberToString opts) lines3 (enumerate 0 (items opts)));
          lines5 = lines4 @ [SeparatorLine None w,
                             toCenteredLine opts strOdemeOzeti (Some PresetMedium),
                             SeparatorLine None w];
          lines6 = (if hasMeaningfulAmount (subtotal opts) epsilonDefault
                    then pushResponsiveColumns opts lines5 strAraToplam
                           (fmt (convertSummaryAmount opts (subtotal opts) None)) (Some PresetMedium)
                    else lines5);
          lines7 = (if hasMeaningfulAmount (totalDiscount opts) epsilonDefault
                    then pushResponsiveColumns opts lines6 (discountLabel numberToString opts)
                           (asc ''-'' @ fmt (convertSummaryAmount opts (totalDiscount opts) None)) None
                    else lines6);
          lines8 = (if hasMeaningfulAmount (totalTax opts) epsilonDefault
                    then pushResponsiveColumns opts lines7 (taxLabel numberToString opts)
                           (fmt (convertSummaryAmount opts (totalTax opts) None)) None
                    else lines7);
          lines9 = pushResponsiveColumns opts lines8 strOdenen (fmt (displayPaidAmount opts)) None;
          lines10 = (if hasMeaningfulAmount (resolvedChange opts) epsilonDefault
                     then pushResponsiveColumns opts lines9 strParaUstu (fmt (resolvedChange opts)) None
                     else lines9);
          lines11 = lines10 @ [SeparatorLine (Some 0x2E) w,
                               toCenteredLine opts strGenelToplam (Some PresetMedium),
                               TextLine (fmt (totalDisplay opts)) (Some PresetLarge) None];
          lines12 = (if \<not> hasOutstandingDebt opts \<and> hasMeaningfulAmount (resolvedRemaining opts) epsilonDefault
                     then pushResponsiveColumns opts lines11 strBorc (fmt (resolvedRemaining opts)) None
                     else lines11);
          lines13 = lines12 @ [EmptyLine 1];
          thanks = (case thankYouMessage opts of Undefined \<Rightarrow> Val strTesekkur | v \<Rightarrow> v);
          lines14 = (if truthy thanks then lines13 @ [toCenteredLine opts (valOf thanks) None] else lines13)
      in lines14 @ [EmptyLine 30])"

section \<open>Notions of the specification\<close>




function wordsOf :: "jsstring \<Rightarrow> jsstring list" where
  "wordsOf s =
     (let t = dropWhile isSpace s in
      if t = [] then []
      else takeWhile (\<lambda>c. \<not> isSpace c) t # wordsOf (dropWhile (\<lambda>c. \<not> isSpace c) t))"
  by pat_completeness auto
termination
proof (relation "measure length")
  show "wf (measure length)" by simp
next
  fix s t :: jsstring
  assume t: "t = dropWhile isSpace s" and ne: "t \<noteq> []"
  have "\<not> isSpace (hd (dropWhile isSpace s))"
    using ne unfolding t by (rule hd_dropWhile)
  moreover from ne obtain c cs where tc: "t = c # cs" by (cases t) auto
  ultimately have "\<not> isSpace c" using t by (metis list.sel(1))
  with tc have "takeWhile (\<lambda>c. \<not> isSpace c) t \<noteq> []"
    by simp
  then have "length (dropWhile (\<lambda>c. \<not> isSpace c) t) < length t"
    by (metis length_append length_greater_0_conv takeWhile_dropWhile_id less_add_same_cancel2)
  moreover have "length t \<le> length s"
    unfolding t by (rule length_dropWhile_le)
  ultimately show "(dropWhile (\<lambda>c. \<not> isSpace c) t, s) \<in> measure length"
    by simp
qed

declare wordsOf.simps [simp del]


text \<open>The lines of a state of the packing loop, once the line being built is pushed.\<close>

definition wrapFlush :: "jsstring list \<times> jsstring \<Rightarrow> jsstring list" where
  "wrapFlush st = (if snd st \<noteq> [] then fst st @ [snd st] else fst st)"

text \<open>
  The invariant of the packing loop for long words: every word seen so far that is
  longer than the width is a finished line, or is the whole of the line being built.
\<close>

definition longKept :: "int \<Rightarrow> jsstring set \<Rightarrow> jsstring list \<times> jsstring \<Rightarrow> bool" where
  "longKept width A st =
     (\<forall>x\<in>A. x \<noteq> [] \<and> width < int (length x) \<longrightarrow> x \<in> set (fst st) \<or> x = snd st)"

text \<open>
  The leading and the trailing spaces of a text, and the text of a text line.
\<close>

definition leftPadding :: "jsstring \<Rightarrow> nat" where
  "leftPadding s = length (takeWhile (\<lambda>c. c = spaceChar) s)"

definition rightPadding :: "jsstring \<Rightarrow> nat" where
  "rightPadding s = leftPadding (rev s)"

definition lineText :: "ReceiptContentLine \<Rightarrow> jsstring" where
  "lineText l = (case l of TextLine s _ _ \<Rightarrow> s | _ \<Rightarrow> [])"

text \<open>A line carries a label when it is that text line, or a columns line with that left field.\<close>

definition labelled :: "jsstring \<Rightarrow> ReceiptContentLine \<Rightarrow> bool" where
  "labelled label l =
     (case l of
        TextLine s _ _ \<Rightarrow> s = label
      | ColumnsLine left _ _ _ _ \<Rightarrow> left = label
      | _ \<Rightarrow> False)"

text \<open>The value of the seller row: \<open>sellerName || fallback\<close>.\<close>

definition sellerValue :: "BuildReceiptLinesOptions \<Rightarrow> jsstring" where
  "sellerValue opts = (if truthy (sellerName opts) then valOf (sellerName opts) else strSatici)"

text \<open>
  The lines that one call of a local function appends, and the blocks of the receipt
  in the order in which \<open>buildStandardReceiptLines\<close> emits them.
\<close>

definition columnsOf ::
  "BuildReceiptLinesOptions \<Rightarrow> jsstring \<Rightarrow> jsstring \<Rightarrow> Preset option \<Rightarrow> ReceiptContentLine list" where
  "columnsOf opts left right preset = pushResponsiveColumns opts [] left right preset"

definition metaRowLines ::
  "(real \<Rightarrow> jsstring) \<Rightarrow> BuildReceiptLinesOptions \<Rightarrow> ReceiptMetaRow \<Rightarrow> ReceiptContentLine list" where
  "metaRowLines numberToString opts row = addMetaRow numberToString opts [] (rowLabel row) (rowValue row) None"

definition itemLines ::
  "(real \<Rightarrow> jsstring) \<Rightarrow> BuildReceiptLinesOptions \<Rightarrow> nat \<times> ReceiptItem \<Rightarrow> ReceiptContentLine list" where
  "itemLines numberToString opts ix = pushItem numberToString opts [] ix"

definition tenantBlock :: "BuildReceiptLinesOptions \<Rightarrow> ReceiptContentLine list" where
  "tenantBlock opts =
     (if orDefault [] (tenantHeaderLines opts) \<noteq> []
      then orDefault [] (tenantHeaderLines opts) @ [SeparatorLine None (receiptWidth opts)]
      else [])"

definition titleBlock :: "BuildReceiptLinesOptions \<Rightarrow> ReceiptContentLine list" where
  "titleBlock opts =
     (if orDefault strSatisFisi (title opts) \<noteq> []
      then [toCenteredLine opts (orDefault strSatisFisi (title opts)) (Some PresetMedium),
            SeparatorLine None (receiptWidth opts)]
      else [])"

definition orderInfoBlock :: "(real \<Rightarrow> jsstring) \<Rightarrow> BuildReceiptLinesOptions \<Rightarrow> ReceiptContentLine list" where
  "orderInfoBlock numberToString opts =
     (if metaRows opts \<noteq> []
      then [toCenteredLine opts strSiparisBilgileri (Some PresetMedium),
            SeparatorLine (Some 0x2E) (receiptWidth opts)]
           @ concat (map (metaRowLines numberToString opts) (metaRows opts))
           @ [SeparatorLine None (receiptWidth opts)]
      else [])"

definition itemsBlock :: "(real \<Rightarrow> jsstring) \<Rightarrow> BuildReceiptLinesOptions \<Rightarrow> ReceiptContentLine list" where
  "itemsBlock numberToString opts =
     (if items opts = []
      then [TextLine (orDefault strUrunBulunamadi (itemsEmptyMessage opts)) None (Some AlignCenter)]
      else concat (map (itemLines numberToString opts) (enumerate 0 (items opts))))"

definition summaryRows :: "(real \<Rightarrow> jsstring) \<Rightarrow> BuildReceiptLinesOptions \<Rightarrow> ReceiptContentLine list" where
  "summaryRows numberToString opts =
     [SeparatorLine None (receiptWidth opts),
      toCenteredLine opts strOdemeOzeti (Some PresetMedium),
      SeparatorLine None (receiptWidth opts)]
     @ (if hasMeaningfulAmount (subtotal opts) epsilonDefault
        then columnsOf opts strAraToplam
               (formatDisplayMoney numberToString opts (convertSummaryAmount opts (subtotal opts) None))
               (Some PresetMedium)
        else [])
     @ (if hasMeaningfulAmount (totalDiscount opts) epsilonDefault
        then columnsOf opts (discountLabel numberToString opts)
               (asc ''-'' @ formatDisplayMoney numberToString opts (convertSummaryAmount opts (totalDiscount opts) None))
               None
        else [])
     @ (if hasMeaningfulAmount (totalTax opts) epsilonDefault
        then columnsOf opts (taxLabel numberToString opts)
               (formatDisplayMoney numberToString opts (convertSummaryAmount opts (totalTax opts) None)) None
        else [])"

definition paidRow :: "(real \<Rightarrow> jsstring) \<Rightarrow> BuildReceiptLinesOptions \<Rightarrow> ReceiptContentLine list" where
  "paidRow numberToString opts =
     columnsOf opts strOdenen (formatDisplayMoney numberToString opts (displayPaidAmount opts)) None"

definition changeRow :: "(real \<Rightarrow> jsstring) \<Rightarrow> BuildReceiptLinesOptions \<Rightarrow> ReceiptContentLine list" where
  "changeRow numberToString opts =
     (if hasMeaningfulAmount (resolvedChange opts) epsilonDefault
      then columnsOf opts strParaUstu (formatDisplayMoney numberToString opts (resolvedChange opts)) None
      else [])"

definition grandTotalBlock :: "(real \<Rightarrow> jsstring) \<Rightarrow> BuildReceiptLinesOptions \<Rightarrow> ReceiptContentLine list" where
  "grandTotalBlock numberToString opts =
     [SeparatorLine (Some 0x2E) (receiptWidth opts),
      toCenteredLine opts strGenelToplam (Some PresetMedium),
      TextLine (formatDisplayMoney numberToString opts (totalDisplay opts)) (Some PresetLarge) None]"

definition debtRow :: "(real \<Rightarrow> jsstring) \<Rightarrow> BuildReceiptLinesOptions \<Rightarrow> ReceiptContentLine list" where
  "debtRow numberToString opts =
     (if \<not> hasOutstandingDebt opts \<and> hasMeaningfulAmount (resolvedRemaining opts) epsilonDefault
      then columnsOf opts strBorc (formatDisplayMoney numberToString opts (resolvedRemaining opts)) None
      else [])"

definition thanksLines :: "BuildReceiptLinesOptions \<Rightarrow> ReceiptContentLine list" where
  "thanksLines opts =
     (case thankYouMessage opts of
        Undefined \<Rightarrow> [toCenteredLine opts strTesekkur None]
      | Null \<Rightarrow> []
      | Val s \<Rightarrow> if s \<noteq> [] then [toCenteredLine opts s None] else [])"

definition footerBlock :: "BuildReceiptLinesOptions \<Rightarrow> ReceiptContentLine list" where
  "footerBlock opts = [EmptyLine 1] @ thanksLines opts @ [EmptyLine 30]"

section \<open>Concrete inputs\<close>

text \<open>
  \<open>wholeNumberString\<close> is the number-to-string conversion on whole numbers, for
  the concrete runs below.
\<close>

definition wholeNumberString :: "real \<Rightarrow> jsstring" where
  "wholeNumberString x = (if x < 0 then asc ''-'' else []) @ digitsOf (nat \<lfloor>\<bar>x\<bar>\<rfloor>)"

definition usdRates :: Rates where
  "usdRates c = (if c = USD then Some 32 else None)"

text \<open>
  The sale of the outstanding-debt scenario: total 100, paid 40, remaining 60, width 32,
  indent 1, everything in TRY. \<open>narrowSale\<close> is the same sale
  on a receipt of width 8.
\<close>

definition debtSale :: BuildReceiptLinesOptions where
  "debtSale =
     \<lparr>tenantHeaderLines = None, title = None, orderNumber = Undefined, createdAtText = Undefined,
      customerName = Undefined, sellerName = Undefined, extraMetaRows = None, items = [],
      itemsEmptyMessage = None, subtotal = 0, totalDiscount = 0, totalTax = 0, orderTotal = 100,
      paid = Some 40, remaining = Some 60, paymentLabel = Undefined, thankYouMessage = Undefined,
      receiptWidth = 32, receiptIndent = 1, currency = None, changeAmount = None,
      targetCurrency = None, rates = None, paidCurrency = None, summaryAlreadyTarget = None\<rparr>"

definition narrowSale :: BuildReceiptLinesOptions where
  "narrowSale = debtSale\<lparr>receiptWidth := 8, receiptIndent := 0\<rparr>"

text \<open>
  Two variants of that sale: one paid in full (remaining 0) with a supplied change amount
  of -5, and one paid with 120 and a supplied remaining amount of -3.
\<close>

definition refundSale :: BuildReceiptLinesOptions where
  "refundSale = debtSale\<lparr>paid := Some 100, remaining := Some 0, changeAmount := Some (- 5)\<rparr>"

definition overpaidSale :: BuildReceiptLinesOptions where
  "overpaidSale = debtSale\<lparr>paid := Some 120, remaining := Some (- 3)\<rparr>"

text \<open>
  The same sale with a seller name, and with a seller name of two spaces.
\<close>

definition namedSellerSale :: BuildReceiptLinesOptions where
  "namedSellerSale = debtSale\<lparr>sellerName := Val (asc ''Ayla Kaya'')\<rparr>"

definition blankSellerSale :: BuildReceiptLinesOptions where
  "blankSellerSale = debtSale\<lparr>sellerName := Val (asc ''  '')\<rparr>"

section \<open>Properties of trimming, splitting and wrapping\<close>

subsection \<open>Trimming\<close>

lemma last_dropWhile_ne: "dropWhile P xs \<noteq> [] \<Longrightarrow> last (dropWhile P xs) = last xs"
  by (induction xs) (auto split: if_splits)

lemma trim_hd: "trim s \<noteq> [] \<Longrightarrow> \<not> isSpace (hd (trim s))"
proof -
  assume ne: "trim s \<noteq> []"
  define t where "t = dropWhile isSpace s"
  define u where "u = dropWhile isSpace (rev t)"
  have tu: "trim s = rev u" by (simp add: trim_def t_def u_def)
  with ne have une: "u \<noteq> []" by simp
  then have tne: "t \<noteq> []" by (auto simp: u_def)
  have "hd (rev u) = last u" using une by (simp add: hd_rev)
  also have "last u = last (rev t)"
    using une unfolding u_def by (simp add: last_dropWhile_ne)
  also have "\<dots> = hd t" using tne by (simp add: last_rev)
  finally have "hd (trim s) = hd t" using tu by simp
  moreover have "\<not> isSpace (hd t)"
    using tne unfolding t_def by (rule hd_dropWhile)
  ultimately show ?thesis by simp
qed

lemma trim_last: "trim s \<noteq> [] \<Longrightarrow> \<not> isSpace (last (trim s))"
proof -
  assume ne: "trim s \<noteq> []"
  define u where "u = dropWhile isSpace (rev (dropWhile isSpace s))"
  have tu: "trim s = rev u" by (simp add: trim_def u_def)
  with ne have une: "u \<noteq> []" by simp
  then have "\<not> isSpace (hd u)" unfolding u_def by (rule hd_dropWhile)
  moreover have "last (rev u) = hd u" using une by (simp add: last_rev)
  ultimately show ?thesis using tu by simp
qed

subsection \<open>Words\<close>

lemma wordsOf_none: "dropWhile isSpace s = [] \<Longrightarrow> wordsOf s = []"
  by (subst wordsOf.simps) (simp add: Let_def)

lemma wordsOf_some:
  "dropWhile isSpace s \<noteq> [] \<Longrightarrow>
   wordsOf s = takeWhile (\<lambda>c. \<not> isSpace c) (dropWhile isSpace s)
     # wordsOf (dropWhile (\<lambda>c. \<not> isSpace c) (dropWhile isSpace s))"
  by (subst wordsOf.simps) (simp add: Let_def)

lemma splitWs_last:
  "dropWhile (\<lambda>c. \<not> isSpace c) s = [] \<Longrightarrow> splitWs s = [takeWhile (\<lambda>c. \<not> isSpace c) s]"
  by (subst splitWs.simps) (simp add: Let_def)

lemma splitWs_more:
  "dropWhile (\<lambda>c. \<not> isSpace c) s \<noteq> [] \<Longrightarrow>
   splitWs s = takeWhile (\<lambda>c. \<not> isSpace c) s
     # splitWs (dropWhile isSpace (dropWhile (\<lambda>c. \<not> isSpace c) s))"
proof -
  assume ne: "dropWhile (\<lambda>c. \<not> isSpace c) s \<noteq> []"
  have "splitWs s = (if dropWhile (\<lambda>c. \<not> isSpace c) s = [] then [takeWhile (\<lambda>c. \<not> isSpace c) s]
     else takeWhile (\<lambda>c. \<not> isSpace c) s
       # splitWs (dropWhile isSpace (dropWhile (\<lambda>c. \<not> isSpace c) s)))"
    by (rule trans [OF splitWs.simps]) (simp only: Let_def)
  then show ?thesis by (simp only: ne if_False)
qed

lemma wordsOf_Nil: "wordsOf [] = []"
  by (simp add: wordsOf_none)

lemma wordsOf_dropWhile: "wordsOf (dropWhile isSpace s) = wordsOf s"
proof (cases "dropWhile isSpace s = []")
  case True
  then show ?thesis by (simp add: wordsOf_none)
next
  case False
  moreover from False have "dropWhile isSpace (dropWhile isSpace s) = dropWhile isSpace s"
    by (metis dropWhile_idem)
  ultimately show ?thesis
    by (simp add: wordsOf_some [of s] wordsOf_some [of "dropWhile isSpace s"])
qed

lemma wordsOf_spaces: "\<forall>c\<in>set s. isSpace c \<Longrightarrow> wordsOf s = []"
  by (simp add: wordsOf_none)

lemma wordsOf_word:
  assumes "w \<noteq> []" and "\<forall>c\<in>set w. \<not> isSpace c"
  shows "wordsOf w = [w]"
proof -
  have d: "dropWhile isSpace w = w"
    using assms by (cases w) auto
  have tk: "takeWhile (\<lambda>c. \<not> isSpace c) w = w"
    using assms by simp
  have dr: "dropWhile (\<lambda>c. \<not> isSpace c) w = []"
    using assms by simp
  have "wordsOf w = takeWhile (\<lambda>c. \<not> isSpace c) (dropWhile isSpace w)
     # wordsOf (dropWhile (\<lambda>c. \<not> isSpace c) (dropWhile isSpace w))"
    using assms(1) d by (intro wordsOf_some) simp
  then show ?thesis
    unfolding d tk dr wordsOf_Nil .
qed

lemma wordsOf_append_space:
  "isSpace c \<Longrightarrow> wordsOf (a @ c # b) = wordsOf a @ wordsOf b"
proof (induction a rule: wordsOf.induct)
  case (1 s)
  define t where "t = dropWhile isSpace s"
  show ?case
  proof (cases "t = []")
    case True
    then have allsp: "\<forall>x\<in>set s. isSpace x" by (simp add: t_def)
    then have "dropWhile isSpace (s @ c # b) = dropWhile isSpace b"
      using 1(2) by (simp add: dropWhile_append)
    then have "wordsOf (s @ c # b) = wordsOf b"
      by (metis wordsOf_dropWhile)
    with allsp show ?thesis by (simp add: wordsOf_spaces)
  next
    case False
    then have ex: "\<exists>x\<in>set s. \<not> isSpace x" by (auto simp: t_def)
    then have d: "dropWhile isSpace (s @ c # b) = t @ c # b"
      by (auto simp: t_def dropWhile_append)
    have tk: "takeWhile (\<lambda>c. \<not> isSpace c) (t @ c # b) = takeWhile (\<lambda>c. \<not> isSpace c) t"
      using 1(2) by (simp add: takeWhile_append takeWhile_eq_all_conv [THEN iffD2])
    have dr: "dropWhile (\<lambda>c. \<not> isSpace c) (t @ c # b) = dropWhile (\<lambda>c. \<not> isSpace c) t @ c # b"
      using 1(2) by (simp add: dropWhile_append)
    have ih: "wordsOf (dropWhile (\<lambda>c. \<not> isSpace c) t @ c # b)
        = wordsOf (dropWhile (\<lambda>c. \<not> isSpace c) t) @ wordsOf b"
      using 1(1) [OF t_def False] 1(2) by simp
    have "wordsOf (s @ c # b) = takeWhile (\<lambda>c. \<not> isSpace c) t # wordsOf (dropWhile (\<lambda>c. \<not> isSpace c) t @ c # b)"
      by (simp add: wordsOf_some [of "s @ c # b"] d tk dr)
    moreover have "wordsOf s = takeWhile (\<lambda>c. \<not> isSpace c) t # wordsOf (dropWhile (\<lambda>c. \<not> isSpace c) t)"
      using False by (simp add: wordsOf_some [of s] t_def)
    ultimately show ?thesis using ih by simp
  qed
qed

lemma wordsOf_append_spaces:
  "\<forall>c\<in>set sp. isSpace c \<Longrightarrow> wordsOf (a @ sp) = wordsOf a"
proof (cases sp)
  case Nil
  then show ?thesis by simp
next
  case (Cons c cs)
  assume "\<forall>c\<in>set sp. isSpace c"
  with Cons show ?thesis
    by (simp add: wordsOf_append_space wordsOf_spaces)
qed

lemma wordsOf_trim: "wordsOf (trim s) = wordsOf s"
proof -
  define t where "t = dropWhile isSpace s"
  have "t = rev (dropWhile isSpace (rev t)) @ rev (takeWhile isSpace (rev t))"
    by (metis rev_append rev_rev_ident takeWhile_dropWhile_id)
  moreover have "\<forall>c\<in>set (rev (takeWhile isSpace (rev t))). isSpace c"
    by (auto dest: set_takeWhileD)
  ultimately have "wordsOf t = wordsOf (rev (dropWhile isSpace (rev t)))"
    by (metis wordsOf_append_spaces)
  then show ?thesis
    by (simp add: trim_def t_def [symmetric]) (simp add: t_def wordsOf_dropWhile)
qed

lemma wordsOf_props:
  "w \<in> set (wordsOf s) \<Longrightarrow> w \<noteq> [] \<and> (\<forall>c\<in>set w. \<not> isSpace c) \<and> length w \<le> length s"
proof (induction s rule: wordsOf.induct)
  case (1 s)
  define t where "t = dropWhile isSpace s"
  show ?case
  proof (cases "t = []")
    case True
    with 1(2) show ?thesis by (simp add: wordsOf_none [of s] t_def)
  next
    case False
    define hdw where "hdw = takeWhile (\<lambda>c. \<not> isSpace c) t"
    define r where "r = dropWhile (\<lambda>c. \<not> isSpace c) t"
    have ws: "wordsOf s = hdw # wordsOf r"
      using False by (simp add: wordsOf_some [of s] t_def hdw_def r_def)
    have lt: "length t \<le> length s" unfolding t_def by (rule length_dropWhile_le)
    have "\<not> isSpace (hd t)" using False unfolding t_def by (rule hd_dropWhile)
    with False have hne: "hdw \<noteq> []" by (cases t) (auto simp: hdw_def)
    have hsp: "\<forall>c\<in>set hdw. \<not> isSpace c"
      by (auto simp: hdw_def dest: set_takeWhileD)
    have hl: "length hdw \<le> length t"
      unfolding hdw_def by (rule length_takeWhile_le)
    have rl: "length r \<le> length t"
      unfolding r_def by (rule length_dropWhile_le)
    from 1(2) ws have "w = hdw \<or> w \<in> set (wordsOf r)" by auto
    then show ?thesis
    proof
      assume "w = hdw"
      moreover have "length hdw \<le> length s" using hl lt by (rule order_trans)
      ultimately show ?thesis using hne hsp by blast
    next
      assume a: "w \<in> set (wordsOf r)"
      have "w \<noteq> [] \<and> (\<forall>c\<in>set w. \<not> isSpace c) \<and> length w \<le> length r"
        using "1.IH" [OF t_def False] a unfolding r_def by blast
      moreover have "length r \<le> length s" using rl lt by (rule order_trans)
      ultimately show ?thesis by (meson order_trans)
    qed
  qed
qed

lemma splitWs_words: "filter (\<lambda>w. w \<noteq> []) (splitWs s) = wordsOf s"
proof (induction s rule: splitWs.induct)
  case (1 s)
  define w where "w = takeWhile (\<lambda>c. \<not> isSpace c) s"
  define r where "r = dropWhile (\<lambda>c. \<not> isSpace c) s"
  have sw: "s = w @ r" by (simp add: w_def r_def)
  show ?case
  proof (cases "r = []")
    case True
    then have sp: "splitWs s = [w]"
      by (simp add: splitWs_last [of s] w_def r_def)
    from True sw have "s = w" by simp
    moreover have "\<forall>c\<in>set w. \<not> isSpace c" by (auto simp: w_def dest: set_takeWhileD)
    ultimately show ?thesis
      using sp by (cases "w = []") (simp_all add: wordsOf_Nil wordsOf_word)
  next
    case False
    then have sp: "splitWs s = w # splitWs (dropWhile isSpace r)"
      by (simp add: splitWs_more [of s] w_def r_def)
    have ih: "filter (\<lambda>w. w \<noteq> []) (splitWs (dropWhile isSpace r)) = wordsOf r"
      using "1.IH" [OF w_def r_def False] by (simp add: wordsOf_dropWhile)
    from False obtain c cs where rc: "r = c # cs" by (cases r) auto
    have "\<not> \<not> isSpace (hd r)"
      using False unfolding r_def by (rule hd_dropWhile)
    with rc have c: "isSpace c" by simp
    have "wordsOf s = wordsOf w @ wordsOf cs"
      unfolding sw rc using c by (rule wordsOf_append_space)
    moreover have "wordsOf r = wordsOf cs"
      using c wordsOf_append_space [of c "[]" cs] by (simp add: rc wordsOf_Nil)
    moreover have "wordsOf w = (if w = [] then [] else [w])"
      by (auto simp: wordsOf_Nil intro!: wordsOf_word) (auto simp: w_def dest: set_takeWhileD)
    ultimately show ?thesis using sp ih by simp
  qed
qed


subsection \<open>Joining and collapsing\<close>








subsection \<open>The packing loop\<close>

lemma splitWs_spacefree:
  "w \<in> set (splitWs s) \<Longrightarrow> \<forall>c\<in>set w. \<not> isSpace c"
proof (induction s rule: splitWs.induct)
  case (1 s)
  define hdw where "hdw = takeWhile (\<lambda>c. \<not> isSpace c) s"
  define r where "r = dropWhile (\<lambda>c. \<not> isSpace c) s"
  have hsp: "\<forall>c\<in>set hdw. \<not> isSpace c"
    by (auto simp: hdw_def dest: set_takeWhileD)
  show ?case
  proof (cases "r = []")
    case True
    then have "splitWs s = [hdw]"
      unfolding r_def hdw_def by (rule splitWs_last)
    with 1(2) hsp show ?thesis by simp
  next
    case False
    then have "splitWs s = hdw # splitWs (dropWhile isSpace r)"
      unfolding r_def hdw_def by (rule splitWs_more)
    with 1(2) have "w = hdw \<or> w \<in> set (splitWs (dropWhile isSpace r))" by simp
    then show ?thesis
    proof
      assume "w = hdw"
      with hsp show ?thesis by simp
    next
      assume "w \<in> set (splitWs (dropWhile isSpace r))"
      then show ?thesis
        using "1.IH" [OF hdw_def r_def False] by blast
    qed
  qed
qed

lemma wrapStep_empty: "wrapStep width st [] = st"
  by (simp add: wrapStep_def)



lemma wrapStep_words:
  "w \<noteq> [] \<Longrightarrow> \<forall>c\<in>set w. \<not> isSpace c \<Longrightarrow>
   concat (map wordsOf (wrapFlush (wrapStep width st w)))
     = concat (map wordsOf (wrapFlush st)) @ [w]"
  by (cases st)
    (simp add: wrapStep_def wrapFlush_def wordsOf_word wordsOf_append_space isSpace_def spaceChar_def)

lemma wrapFold_words:
  "\<forall>w\<in>set ws. \<forall>c\<in>set w. \<not> isSpace c \<Longrightarrow>
   concat (map wordsOf (wrapFlush (foldl (wrapStep width) st ws)))
     = concat (map wordsOf (wrapFlush st)) @ filter (\<lambda>w. w \<noteq> []) ws"
proof (induction ws arbitrary: st)
  case Nil
  then show ?case by simp
next
  case (Cons w ws)
  show ?case
  proof (cases "w = []")
    case True
    then show ?thesis using Cons.IH [of st] Cons.prems by (simp add: wrapStep_empty)
  next
    case False
    then show ?thesis
      using Cons.IH [of "wrapStep width st w"] Cons.prems
        wrapStep_words [of w width st] by simp
  qed
qed

lemma wrapStep_long:
  assumes inv: "longKept width A st"
  shows "longKept width (insert w A) (wrapStep width st w)"
proof -
  obtain res cur where st: "st = (res, cur)" by (cases st)
  from inv have old: "\<And>x. x \<in> A \<Longrightarrow> x \<noteq> [] \<Longrightarrow> width < int (length x)
      \<Longrightarrow> x \<in> set res \<or> x = cur"
    by (simp add: longKept_def st)
  consider (skip) "w = []"
    | (start) "w \<noteq> []" "cur = []"
    | (fits) "w \<noteq> []" "cur \<noteq> []" "int (length cur) + 1 + int (length w) \<le> width"
    | (break) "w \<noteq> []" "cur \<noteq> []" "\<not> int (length cur) + 1 + int (length w) \<le> width"
    by blast
  then show ?thesis
  proof cases
    case skip
    then have "wrapStep width st w = st" by (simp add: wrapStep_empty)
    with old skip show ?thesis by (auto simp: longKept_def st)
  next
    case start
    then have "wrapStep width st w = (res, w)" by (simp add: wrapStep_def st)
    with old start show ?thesis by (auto simp: longKept_def)
  next
    case fits
    then have "wrapStep width st w = (res, cur @ spaceChar # w)" by (simp add: wrapStep_def st)
    moreover have "\<And>x. x \<in> insert w A \<Longrightarrow> x \<noteq> [] \<Longrightarrow> width < int (length x) \<Longrightarrow> x \<in> set res"
    proof -
      fix x assume x: "x \<in> insert w A" "x \<noteq> []" "width < int (length x)"
      from fits(3) x(3) have "x \<noteq> w" "x \<noteq> cur" by auto
      with x old show "x \<in> set res" by blast
    qed
    ultimately show ?thesis by (simp add: longKept_def)
  next
    case break
    then have "wrapStep width st w = (res @ [cur], w)" by (simp add: wrapStep_def st)
    with old show ?thesis by (auto simp: longKept_def)
  qed
qed

lemma wrapFold_long:
  "longKept width A st \<Longrightarrow> longKept width (A \<union> set ws) (foldl (wrapStep width) st ws)"
proof (induction ws arbitrary: st A)
  case Nil
  then show ?case by simp
next
  case (Cons w ws)
  from Cons.prems have "longKept width (insert w A) (wrapStep width st w)"
    by (rule wrapStep_long)
  then have "longKept width (insert w A \<union> set ws) (foldl (wrapStep width) (wrapStep width st w) ws)"
    by (rule Cons.IH)
  then show ?case by simp
qed

lemma longKept_flush:
  "longKept width A st \<Longrightarrow> x \<in> A \<Longrightarrow> x \<noteq> [] \<Longrightarrow> width < int (length x)
   \<Longrightarrow> x \<in> set (wrapFlush st)"
  by (cases st) (auto simp: longKept_def wrapFlush_def)

lemma wrapTextToWidth_cases:
  "wrapTextToWidth v width =
     (if trim v = [] then []
      else if int (length (trim v)) \<le> width then [trim v]
      else wrapFlush (foldl (wrapStep width) ([], []) (splitWs (trim v))))"
  by (simp add: wrapTextToWidth_def wrapFlush_def Let_def)

lemma wrap_words: "concat (map wordsOf (wrapTextToWidth v width)) = wordsOf v"
proof -
  have "wordsOf (trim v) = wordsOf v" by (rule wordsOf_trim)
  moreover have "concat (map wordsOf (wrapFlush (foldl (wrapStep width) ([], []) (splitWs (trim v)))))
      = wordsOf (trim v)"
    using wrapFold_words [of "splitWs (trim v)" width "([], [])"] splitWs_spacefree [of _ "trim v"]
    by (simp add: wrapFlush_def splitWs_words)
  ultimately show ?thesis
    by (auto simp: wrapTextToWidth_cases wordsOf_Nil)
qed


lemma wrap_long:
  assumes "w \<in> set (wordsOf v)" and "width < int (length w)"
  shows "w \<in> set (wrapTextToWidth v width)"
proof -
  from assms(1) have wt: "w \<in> set (wordsOf (trim v))" by (simp add: wordsOf_trim)
  then have props: "w \<noteq> []" "length w \<le> length (trim v)"
    using wordsOf_props [of w "trim v"] by simp_all
  with assms(2) have nofit: "\<not> int (length (trim v)) \<le> width" "trim v \<noteq> []" by auto
  have "longKept width {} ([], [])" by (simp add: longKept_def)
  then have "longKept width ({} \<union> set (splitWs (trim v)))
      (foldl (wrapStep width) ([], []) (splitWs (trim v)))"
    by (rule wrapFold_long)
  moreover have "w \<in> set (splitWs (trim v))"
    using wt splitWs_words [of "trim v"] by (metis filter_is_subset subsetD)
  ultimately have "w \<in> set (wrapFlush (foldl (wrapStep width) ([], []) (splitWs (trim v))))"
    using props(1) assms(2) longKept_flush by (metis Un_iff)
  with nofit show ?thesis by (simp add: wrapTextToWidth_cases)
qed

section \<open>The receipt as a sequence of blocks\<close>

lemma pushResponsiveColumns_append:
  "pushResponsiveColumns opts lines left right preset = lines @ columnsOf opts left right preset"
  by (simp add: pushResponsiveColumns_def columnsOf_def Let_def)

lemma foldl_append_step:
  assumes step: "\<And>ls x. f ls x = ls @ g x"
  shows "foldl f ls xs = ls @ concat (map g xs)"
  by (induction xs arbitrary: ls) (simp_all add: step)

lemma foldl_append_concat:
  "foldl (\<lambda>ls x. ls @ g x) ls xs = ls @ concat (map g xs)"
  by (induction xs arbitrary: ls) simp_all

lemma addMetaRow_append:
  "addMetaRow numberToString opts lines label v preset
     = lines @ addMetaRow numberToString opts [] label v preset"
  by (simp add: addMetaRow_def Let_def foldl_append_concat pushResponsiveColumns_append
      split: nullable.splits list.splits)

lemma metaRows_fold:
  "foldl (\<lambda>ls row. addMetaRow numberToString opts ls (rowLabel row) (rowValue row) None) lines rows
     = lines @ concat (map (metaRowLines numberToString opts) rows)"
proof (rule foldl_append_step)
  fix ls row
  show "addMetaRow numberToString opts ls (rowLabel row) (rowValue row) None
      = ls @ metaRowLines numberToString opts row"
    unfolding metaRowLines_def by (rule addMetaRow_append)
qed

lemma pushItem_append:
  "pushItem numberToString opts lines ix = lines @ itemLines numberToString opts ix"
  by (simp add: pushItem_def itemLines_def Let_def pushResponsiveColumns_append)

lemma items_fold:
  "foldl (pushItem numberToString opts) lines xs = lines @ concat (map (itemLines numberToString opts) xs)"
  by (rule foldl_append_step) (rule pushItem_append)

lemma thanks_lines:
  "(if truthy (case thankYouMessage opts of Undefined \<Rightarrow> Val strTesekkur | Null \<Rightarrow> Null | Val x \<Rightarrow> Val x)
    then [toCenteredLine opts
            (valOf (case thankYouMessage opts of Undefined \<Rightarrow> Val strTesekkur | Null \<Rightarrow> Null | Val x \<Rightarrow> Val x))
            None]
    else [])
   = thanksLines opts"
  by (simp add: thanksLines_def truthy_def valOf_def strTesekkur_def asc_def split: nullable.splits)

lemma if_append_else: "(if c then ls @ a else ls) = ls @ (if c then a else [])"
  by simp

lemma if_append_both: "(if c then ls @ a else ls @ b) = ls @ (if c then a else b)"
  by simp

lemma build_blocks:
  "buildStandardReceiptLines numberToString opts =
     tenantBlock opts @ titleBlock opts @ orderInfoBlock numberToString opts
     @ itemsBlock numberToString opts @ summaryRows numberToString opts
     @ paidRow numberToString opts @ changeRow numberToString opts
     @ grandTotalBlock numberToString opts @ debtRow numberToString opts @ footerBlock opts"
  by (simp add: buildStandardReceiptLines_def tenantBlock_def titleBlock_def orderInfoBlock_def
      itemsBlock_def summaryRows_def paidRow_def changeRow_def grandTotalBlock_def debtRow_def
      footerBlock_def metaRows_fold items_fold pushResponsiveColumns_append thanks_lines
      if_append_else if_append_both Let_def split del: if_split cong: if_cong)

section \<open>Currency conversion\<close>

text \<open>
  C3. For a non-zero amount and a code other than TRY whose rate is missing or not
  positive, \<open>toTRY\<close> returns exactly 0 and \<open>fromTRY\<close> returns the amount unchanged.
\<close>

theorem missing_rate_asymmetry:
  assumes "amount \<noteq> 0" and "code \<noteq> TRY"
    and "rateOf rs code = None \<or> (\<exists>r. rateOf rs code = Some r \<and> r \<le> 0)"
  shows "toTRY amount code rs = 0 \<and> fromTRY amount code rs = amount"
  using assms by (auto simp: toTRY_def fromTRY_def)

theorem missing_rate_asymmetry_witness:
  "toTRY 5 EUR (Some usdRates) = 0 \<and> fromTRY 5 EUR (Some usdRates) = 5
   \<and> toTRY 5 GBP (Some (usdRates(GBP := Some (- 1)))) = 0
   \<and> fromTRY 5 GBP (Some (usdRates(GBP := Some (- 1)))) = 5"
proof -
  have "rateOf (Some usdRates) EUR = None \<or> (\<exists>r. rateOf (Some usdRates) EUR = Some r \<and> r \<le> 0)"
    by (simp add: rateOf_def usdRates_def)
  then have missing: "toTRY 5 EUR (Some usdRates) = 0 \<and> fromTRY 5 EUR (Some usdRates) = 5"
    using missing_rate_asymmetry [of 5 EUR "Some usdRates"] by simp
  have "rateOf (Some (usdRates(GBP := Some (- 1)))) GBP = None
      \<or> (\<exists>r. rateOf (Some (usdRates(GBP := Some (- 1)))) GBP = Some r \<and> r \<le> 0)"
    by (simp add: rateOf_def)
  then have "toTRY 5 GBP (Some (usdRates(GBP := Some (- 1)))) = 0
      \<and> fromTRY 5 GBP (Some (usdRates(GBP := Some (- 1)))) = 5"
    using missing_rate_asymmetry [of 5 GBP "Some (usdRates(GBP := Some (- 1)))"] by simp
  with missing show ?thesis by simp
qed

text \<open>
  C4. Round trip, in exact arithmetic: for a code other than TRY with a positive rate and
  a non-zero amount, converting to TRY and back gives the amount again.
\<close>

theorem rate_round_trip:
  assumes "code \<noteq> TRY" and "0 < r" and "amount \<noteq> 0" and "rateOf rs code = Some r"
  shows "fromTRY (toTRY amount code rs) code rs = amount"
  using assms by (simp add: toTRY_def fromTRY_def)

theorem rate_round_trip_witness:
  "fromTRY (toTRY 7 USD (Some usdRates)) USD (Some usdRates) = 7 \<and> toTRY 7 USD (Some usdRates) = 224"
proof -
  have r: "rateOf (Some usdRates) USD = Some 32"
    by (simp add: rateOf_def usdRates_def)
  have "fromTRY (toTRY 7 USD (Some usdRates)) USD (Some usdRates) = 7"
    using rate_round_trip [of USD 32 7 "Some usdRates"] r by simp
  moreover have "toTRY 7 USD (Some usdRates) = 224"
    by (simp add: toTRY_def r)
  ultimately show ?thesis by simp
qed

section \<open>Responsive columns\<close>

lemma pushResponsiveColumns_cases:
  "pushResponsiveColumns opts lines left right preset =
     lines @
     (if int (length (trim left)) + int (length (trim right)) + 2
           \<le> max (receiptWidth opts - receiptIndent opts) 8
      then [ColumnsLine (trim left) (trim right) (receiptIndent opts) (receiptWidth opts) preset]
      else (if trim left \<noteq> [] then [TextLine (trim left) preset None] else [])
           @ (if trim right \<noteq> []
              then [ColumnsLine [] (trim right) (receiptIndent opts) (receiptWidth opts) preset]
              else []))"
proof (cases "int (length (trim left)) + int (length (trim right)) + 2
    > max (receiptWidth opts - receiptIndent opts) 8")
  case True
  then have "\<not> int (length (trim left)) + int (length (trim right)) + 2
      \<le> max (receiptWidth opts - receiptIndent opts) 8" by linarith
  with True show ?thesis
    unfolding pushResponsiveColumns_def Let_def by (simp only: if_True if_False) simp
next
  case False
  then have "int (length (trim left)) + int (length (trim right)) + 2
      \<le> max (receiptWidth opts - receiptIndent opts) 8" by linarith
  with False show ?thesis
    unfolding pushResponsiveColumns_def Let_def by (simp only: if_True if_False)
qed

lemma trim_asc_AraToplam: "trim (asc '' Ara Toplam '') = asc ''Ara Toplam''"
  by (simp add: trim_def asc_def isSpace_def)

lemma trim_asc_amount: "trim (asc ''50.00 TL'') = asc ''50.00 TL''"
  by (simp add: trim_def asc_def isSpace_def)

section \<open>Centering\<close>

lemma isSpace_spaceChar: "isSpace spaceChar"
  by (simp add: isSpace_def spaceChar_def)

lemma takeWhile_padding:
  "t \<noteq> [] \<Longrightarrow> hd t \<noteq> x \<Longrightarrow> takeWhile (\<lambda>c. c = x) (replicate l x @ t @ ys) = replicate l x"
  by (induction l) (cases t; simp)+

lemma padding_left:
  assumes "trim v \<noteq> []"
  shows "leftPadding (replicate l spaceChar @ trim v @ replicate r spaceChar) = l"
proof -
  have "hd (trim v) \<noteq> spaceChar"
    using trim_hd [OF assms] isSpace_spaceChar by auto
  with assms show ?thesis
    by (simp add: leftPadding_def takeWhile_padding)
qed

lemma padding_right:
  assumes "trim v \<noteq> []"
  shows "rightPadding (replicate l spaceChar @ trim v @ replicate r spaceChar) = r"
proof -
  have "hd (rev (trim v)) \<noteq> spaceChar"
    using trim_last [OF assms] isSpace_spaceChar assms by (auto simp: hd_rev)
  moreover have "rev (trim v) \<noteq> []" using assms by simp
  ultimately show ?thesis
    by (simp add: rightPadding_def leftPadding_def takeWhile_padding)
qed

text \<open>
  C8. For a trimmed text strictly shorter than the effective width \<open>max receiptWidth 1\<close>,
  the centered line is the text between \<open>l\<close> spaces on the left and \<open>r\<close> spaces on the
  right, with \<open>l + r = width - text.length\<close> and \<open>r - l\<close> either 0 or 1. When the text is
  not empty, \<open>l\<close> and \<open>r\<close> are the numbers of leading and trailing spaces of the line.
\<close>

theorem centered_padding:
  assumes short: "int (length (trim v)) < max (receiptWidth opts) 1"
  shows "\<exists>l r. toCenteredLine opts v preset
             = TextLine (replicate l spaceChar @ trim v @ replicate r spaceChar) preset None
           \<and> int l + int r = max (receiptWidth opts) 1 - int (length (trim v))
           \<and> (r = l \<or> r = l + 1)
           \<and> (trim v \<noteq> [] \<longrightarrow>
                leftPadding (lineText (toCenteredLine opts v preset)) = l
              \<and> rightPadding (lineText (toCenteredLine opts v preset)) = r)"
proof -
  define wd where "wd = max (receiptWidth opts) 1"
  define p where "p = wd - int (length (trim v))"
  define l where "l = nat (p div 2)"
  define r where "r = nat (p - p div 2)"
  from short have ppos: "0 < p" by (simp add: p_def wd_def)
  have tk: "take (nat wd) (trim v) = trim v"
    using short by (simp add: wd_def)
  have line: "toCenteredLine opts v preset
      = TextLine (replicate l spaceChar @ trim v @ replicate r spaceChar) preset None"
    using ppos unfolding toCenteredLine_def Let_def wd_def [symmetric] tk p_def [symmetric] l_def r_def
    by simp
  have sum: "int l + int r = wd - int (length (trim v))"
    using ppos by (simp add: l_def r_def p_def [symmetric])
  have diff: "r = l \<or> r = l + 1"
    using ppos unfolding l_def r_def by (cases "even p") (auto elim!: evenE oddE simp: nat_add_distrib)
  have obs: "trim v \<noteq> [] \<longrightarrow>
      leftPadding (lineText (toCenteredLine opts v preset)) = l
    \<and> rightPadding (lineText (toCenteredLine opts v preset)) = r"
    by (simp add: line lineText_def padding_left padding_right)
  from line sum diff obs show ?thesis
    unfolding wd_def by blast
qed

lemma trim_asc_Tarih: "trim (asc '' Tarih '') = asc ''Tarih''"
  by (simp add: trim_def asc_def isSpace_def)

theorem centered_padding_witness:
  "leftPadding (lineText (toCenteredLine debtSale (asc '' Tarih '') None))
     + rightPadding (lineText (toCenteredLine debtSale (asc '' Tarih '') None)) = 27
   \<and> rightPadding (lineText (toCenteredLine debtSale (asc '' Tarih '') None))
     = leftPadding (lineText (toCenteredLine debtSale (asc '' Tarih '') None)) + 1"
proof -
  have w: "max (receiptWidth debtSale) 1 = 32" by (simp add: debtSale_def)
  have n: "length (trim (asc '' Tarih '')) = 5" "trim (asc '' Tarih '') \<noteq> []"
    unfolding trim_asc_Tarih by (simp_all add: asc_def)
  have "int (length (trim (asc '' Tarih ''))) < max (receiptWidth debtSale) 1"
    by (simp add: w n)
  from centered_padding [OF this, of None] obtain l r where
    "int l + int r = max (receiptWidth debtSale) 1 - int (length (trim (asc '' Tarih '')))"
    "r = l \<or> r = l + 1"
    "leftPadding (lineText (toCenteredLine debtSale (asc '' Tarih '') None)) = l"
    "rightPadding (lineText (toCenteredLine debtSale (asc '' Tarih '') None)) = r"
    using n(2) by blast
  then show ?thesis
    unfolding w n by presburger
qed

section \<open>Word wrap\<close>


lemma wordsOf_sample:
  "wordsOf (asc '' a  extraordinary b '') = [asc ''a'', asc ''extraordinary'', asc ''b'']"
  by (simp add: wordsOf.simps asc_def isSpace_def)




section \<open>The option \<open>paymentLabel\<close>\<close>

lemma paymentLabel_metaRows: "metaRows (opts\<lparr>paymentLabel := l\<rparr>) = metaRows opts"
  by (simp add: metaRows_def Let_def cong: if_cong option.case_cong nullable.case_cong list.case_cong split del: if_split)

lemma paymentLabel_target:
  "resolvedTargetCurrency (opts\<lparr>paymentLabel := l\<rparr>) = resolvedTargetCurrency opts"
  by (simp add: resolvedTargetCurrency_def Let_def cong: if_cong option.case_cong nullable.case_cong list.case_cong split del: if_split)

lemma paymentLabel_convertAmount:
  "convertAmount (opts\<lparr>paymentLabel := l\<rparr>) = convertAmount opts"
  by (intro ext) (simp add: convertAmount_def paymentLabel_target Let_def cong: if_cong option.case_cong nullable.case_cong list.case_cong split del: if_split)

lemma paymentLabel_convertSummaryAmount:
  "convertSummaryAmount (opts\<lparr>paymentLabel := l\<rparr>) = convertSummaryAmount opts"
  by (intro ext) (simp add: convertSummaryAmount_def paymentLabel_convertAmount Let_def cong: if_cong option.case_cong nullable.case_cong list.case_cong split del: if_split)

lemma paymentLabel_formatDisplayMoney:
  "formatDisplayMoney numberToString (opts\<lparr>paymentLabel := l\<rparr>) = formatDisplayMoney numberToString opts"
  by (intro ext) (simp add: formatDisplayMoney_def paymentLabel_target Let_def cong: if_cong option.case_cong nullable.case_cong list.case_cong split del: if_split)

lemma paymentLabel_toCenteredLine:
  "toCenteredLine (opts\<lparr>paymentLabel := l\<rparr>) = toCenteredLine opts"
  by (intro ext) (simp add: toCenteredLine_def Let_def cong: if_cong option.case_cong nullable.case_cong list.case_cong split del: if_split)

lemma paymentLabel_pushResponsiveColumns:
  "pushResponsiveColumns (opts\<lparr>paymentLabel := l\<rparr>) = pushResponsiveColumns opts"
  by (intro ext) (simp add: pushResponsiveColumns_def Let_def cong: if_cong option.case_cong nullable.case_cong list.case_cong split del: if_split)

lemma paymentLabel_addMetaRow:
  "addMetaRow numberToString (opts\<lparr>paymentLabel := l\<rparr>) = addMetaRow numberToString opts"
  by (intro ext) (simp add: addMetaRow_def paymentLabel_pushResponsiveColumns Let_def cong: if_cong option.case_cong nullable.case_cong list.case_cong split del: if_split)

lemma paymentLabel_pushItem:
  "pushItem numberToString (opts\<lparr>paymentLabel := l\<rparr>) = pushItem numberToString opts"
  by (intro ext)
    (simp add: pushItem_def paymentLabel_pushResponsiveColumns paymentLabel_convertAmount
      paymentLabel_formatDisplayMoney Let_def cong: if_cong option.case_cong nullable.case_cong list.case_cong split del: if_split)

lemma paymentLabel_amounts:
  "totalDisplay (opts\<lparr>paymentLabel := l\<rparr>) = totalDisplay opts"
  "resolvedPaid (opts\<lparr>paymentLabel := l\<rparr>) = resolvedPaid opts"
  "resolvedRemaining (opts\<lparr>paymentLabel := l\<rparr>) = resolvedRemaining opts"
  "hasOutstandingDebt (opts\<lparr>paymentLabel := l\<rparr>) = hasOutstandingDebt opts"
  "displayPaidAmount (opts\<lparr>paymentLabel := l\<rparr>) = displayPaidAmount opts"
  "resolvedChange (opts\<lparr>paymentLabel := l\<rparr>) = resolvedChange opts"
  by (simp_all add: totalDisplay_def resolvedPaid_def paidRaw_def resolvedRemaining_def
      remainingRaw_def hasOutstandingDebt_def displayPaidAmount_def resolvedChange_def
      paymentLabel_convertSummaryAmount Let_def cong: if_cong option.case_cong nullable.case_cong list.case_cong split del: if_split)

lemma paymentLabel_labels:
  "discountLabel numberToString (opts\<lparr>paymentLabel := l\<rparr>) = discountLabel numberToString opts"
  "taxLabel numberToString (opts\<lparr>paymentLabel := l\<rparr>) = taxLabel numberToString opts"
  by (simp_all add: discountLabel_def taxLabel_def Let_def cong: if_cong option.case_cong nullable.case_cong list.case_cong split del: if_split)

lemma paymentLabel_fields:
  "tenantHeaderLines (opts\<lparr>paymentLabel := l\<rparr>) = tenantHeaderLines opts"
  "title (opts\<lparr>paymentLabel := l\<rparr>) = title opts"
  "items (opts\<lparr>paymentLabel := l\<rparr>) = items opts"
  "itemsEmptyMessage (opts\<lparr>paymentLabel := l\<rparr>) = itemsEmptyMessage opts"
  "subtotal (opts\<lparr>paymentLabel := l\<rparr>) = subtotal opts"
  "totalDiscount (opts\<lparr>paymentLabel := l\<rparr>) = totalDiscount opts"
  "totalTax (opts\<lparr>paymentLabel := l\<rparr>) = totalTax opts"
  "thankYouMessage (opts\<lparr>paymentLabel := l\<rparr>) = thankYouMessage opts"
  "receiptWidth (opts\<lparr>paymentLabel := l\<rparr>) = receiptWidth opts"
  by simp_all

lemma paymentLabel_build:
  "buildStandardReceiptLines numberToString (opts\<lparr>paymentLabel := l\<rparr>)
     = buildStandardReceiptLines numberToString opts"
  unfolding buildStandardReceiptLines_def paymentLabel_metaRows paymentLabel_convertSummaryAmount
    paymentLabel_formatDisplayMoney paymentLabel_toCenteredLine paymentLabel_pushResponsiveColumns
    paymentLabel_addMetaRow paymentLabel_pushItem paymentLabel_amounts paymentLabel_labels
    paymentLabel_fields
  by (rule refl)

text \<open>
  C10. Two option records that differ only in \<open>paymentLabel\<close> (they are equal once
  \<open>paymentLabel\<close> is overwritten with the same value in both) give the same lines.
\<close>

theorem paymentLabel_noninterference:
  assumes "opts1\<lparr>paymentLabel := l\<rparr> = opts2\<lparr>paymentLabel := l\<rparr>"
  shows "buildStandardReceiptLines numberToString opts1 = buildStandardReceiptLines numberToString opts2"
proof -
  have "buildStandardReceiptLines numberToString opts1
      = buildStandardReceiptLines numberToString (opts1\<lparr>paymentLabel := l\<rparr>)"
    by (simp only: paymentLabel_build)
  also have "\<dots> = buildStandardReceiptLines numberToString (opts2\<lparr>paymentLabel := l\<rparr>)"
    by (simp only: assms)
  also have "\<dots> = buildStandardReceiptLines numberToString opts2"
    by (simp only: paymentLabel_build)
  finally show ?thesis .
qed

theorem paymentLabel_noninterference_witness:
  "buildStandardReceiptLines wholeNumberString (debtSale\<lparr>paymentLabel := Val (asc ''Nakit'')\<rparr>)
     = buildStandardReceiptLines wholeNumberString (debtSale\<lparr>paymentLabel := Null\<rparr>)
   \<and> debtSale\<lparr>paymentLabel := Val (asc ''Nakit'')\<rparr> \<noteq> debtSale\<lparr>paymentLabel := Null\<rparr>"
proof -
  have "debtSale\<lparr>paymentLabel := Val (asc ''Nakit''), paymentLabel := Undefined\<rparr>
      = debtSale\<lparr>paymentLabel := Null, paymentLabel := Undefined\<rparr>"
    by simp
  then have "buildStandardReceiptLines wholeNumberString (debtSale\<lparr>paymentLabel := Val (asc ''Nakit'')\<rparr>)
      = buildStandardReceiptLines wholeNumberString (debtSale\<lparr>paymentLabel := Null\<rparr>)"
    by (rule paymentLabel_noninterference)
  moreover have "debtSale\<lparr>paymentLabel := Val (asc ''Nakit'')\<rparr> \<noteq> debtSale\<lparr>paymentLabel := Null\<rparr>"
    by (simp add: debtSale_def)
  ultimately show ?thesis by simp
qed

section \<open>Formatted amounts\<close>

lemma trim_nonempty:
  assumes "s \<noteq> []" and "\<not> isSpace (last s)"
  shows "trim s \<noteq> []"
proof
  assume e: "trim s = []"
  define t where "t = dropWhile isSpace s"
  from assms have "last s \<in> set s" by simp
  with assms(2) have tne: "t \<noteq> []" by (auto simp: t_def)
  have lt: "last t = last s" using tne unfolding t_def by (rule last_dropWhile_ne)
  from e have "dropWhile isSpace (rev t) = []" by (simp add: trim_def t_def)
  then have "\<forall>c\<in>set t. isSpace c" by simp
  moreover have "last t \<in> set t" using tne by simp
  ultimately show False using lt assms(2) by auto
qed

lemma formatReceiptMoney_last:
  "formatReceiptMoney numberToString x (Some (codeString c)) \<noteq> []
   \<and> \<not> isSpace (last (formatReceiptMoney numberToString x (Some (codeString c))))"
  by (cases c)
    (simp_all add: formatReceiptMoney_def codeString_def toUpperCase_def upperUnit_def asc_def
      Let_def isSpace_def)

lemma formatDisplayMoney_trim: "trim (formatDisplayMoney numberToString opts x) \<noteq> []"
  unfolding formatDisplayMoney_def using formatReceiptMoney_last by (intro trim_nonempty) auto

lemma digitChar_not_minus: "d < 10 \<Longrightarrow> digitChar d \<noteq> 0x2D"
proof -
  assume "d < 10"
  then have "d = 0 \<or> d = 1 \<or> d = 2 \<or> d = 3 \<or> d = 4 \<or> d = 5 \<or> d = 6 \<or> d = 7 \<or> d = 8 \<or> d = 9"
    by arith
  then show ?thesis by (auto simp: digitChar_def)
qed

lemma digitsOf_not_minus: "digitsOf n \<noteq> [] \<and> (\<forall>c\<in>set (digitsOf n). c \<noteq> 0x2D)"
proof (induction n rule: digitsOf.induct)
  case (1 n)
  show ?case
  proof (cases "n < 10")
    case True
    then show ?thesis by (simp add: digitsOf.simps [of n] digitChar_not_minus)
  next
    case False
    then show ?thesis
      using 1 by (simp add: digitsOf.simps [of n] digitChar_not_minus) 
  qed
qed

lemma toFixed2_hd:
  assumes "0 \<le> a" and "a < 10 ^ 21"
  shows "hd (toFixed numberToString a 2) \<noteq> 0x2D"
proof -
  define m where "m = digitsOf (nat \<lfloor>a * 10 ^ 2 + 1 / 2\<rfloor>)"
  define m' where "m' = replicate (2 + 1 - length m) (digitChar 0) @ m"
  have all: "\<forall>c\<in>set m'. c \<noteq> 0x2D"
    using digitsOf_not_minus [of "nat \<lfloor>a * 10 ^ 2 + 1 / 2\<rfloor>"] digitChar_not_minus [of 0]
    by (auto simp: m'_def m_def)
  have len: "3 \<le> length m'" by (simp add: m'_def)
  then have "take (length m' - 2) m' \<noteq> []" by auto
  then have "hd (take (length m' - 2) m' @ asc ''.'' @ drop (length m' - 2) m') \<in> set m'"
    by (metis hd_append2 hd_in_set in_set_takeD)
  with all have "hd (take (length m' - 2) m' @ asc ''.'' @ drop (length m' - 2) m') \<noteq> 0x2D"
    by blast
  moreover have "toFixed numberToString a 2 = take (length m' - 2) m' @ asc ''.'' @ drop (length m' - 2) m'"
    using assms by (simp add: toFixed_def Let_def m'_def m_def)
  ultimately show ?thesis by simp
qed

lemma formatDisplayMoney_sign:
  "(0 \<le> x \<and> x < 10 ^ 21 \<longrightarrow> hd (formatDisplayMoney numberToString opts x) \<noteq> 0x2D)
   \<and> (x < 0 \<longrightarrow> hd (formatDisplayMoney numberToString opts x) = 0x2D)"
proof -
  have "hd (toFixed numberToString x 2 @ ys) \<noteq> 0x2D" if "0 \<le> x" "x < 10 ^ 21" for ys
  proof -
    have "toFixed numberToString x 2 \<noteq> []"
      using that digitsOf_not_minus [of "nat \<lfloor>x * 10 ^ 2 + 1 / 2\<rfloor>"]
      by (simp add: toFixed_def Let_def asc_def)
    then show ?thesis using toFixed2_hd [OF that] by simp
  qed
  then show ?thesis
    by (auto simp: formatDisplayMoney_def formatReceiptMoney_def Let_def asc_def)
qed

section \<open>Converted amounts\<close>

lemma toTRY_nonneg: "0 \<le> v \<Longrightarrow> 0 \<le> toTRY v code rs"
  by (simp add: toTRY_def split: option.splits)

lemma fromTRY_nonneg: "0 \<le> v \<Longrightarrow> 0 \<le> fromTRY v code rs"
  by (simp add: fromTRY_def split: option.splits)

lemma convertSummaryAmount_nonneg: "0 \<le> v \<Longrightarrow> 0 \<le> convertSummaryAmount opts v cur"
  by (simp add: convertSummaryAmount_def convertAmount_def Let_def toTRY_nonneg fromTRY_nonneg)

lemma remainingRaw_nonneg: "0 \<le> remainingRaw opts"
  by (simp add: remainingRaw_def split: option.splits)

lemma resolvedRemaining_nonneg: "0 \<le> resolvedRemaining opts"
  unfolding resolvedRemaining_def using remainingRaw_nonneg by (rule convertSummaryAmount_nonneg)

section \<open>The order-info block\<close>

lemma metaRows_seller:
  "\<lparr>rowLabel = strSatici,
    rowValue = Val (MetaString (if truthy (sellerName opts) then valOf (sellerName opts) else strSatici))\<rparr>
     \<in> set (metaRows opts)"
  by (simp add: metaRows_def Let_def)

lemma metaRows_nonempty: "metaRows opts \<noteq> []"
  using metaRows_seller [of opts] by auto

lemma trim_strSatici: "trim strSatici = strSatici"
  by (simp add: trim_def strSatici_def asc_def isSpace_def)

lemma fallback_seller_row:
  "addMetaRow numberToString opts [] strSatici (Val (MetaString strSatici)) None
     = pushResponsiveColumns opts [] strSatici strSatici None"
proof -
  have "length strSatici = 6" "strSatici \<noteq> []"
    by (simp_all add: strSatici_def asc_def)
  then have fit: "int (length (trim strSatici)) \<le> max (receiptWidth opts - receiptIndent opts) 8"
    "trim strSatici \<noteq> []"
    by (simp_all add: trim_strSatici)
  have "wrapTextToWidth strSatici (max (receiptWidth opts - receiptIndent opts) 8) = [trim strSatici]"
    unfolding wrapTextToWidth_cases using fit by (simp only: if_True if_False)
  then have "wrapTextToWidth strSatici (max (receiptWidth opts - receiptIndent opts) 8) = [strSatici]"
    by (simp only: trim_strSatici)
  then show ?thesis
    using \<open>strSatici \<noteq> []\<close> by (simp add: addMetaRow_def metaValueString_def Let_def)
qed

text \<open>
  A seller name of white space only is not empty: it is kept as the value of the seller
  row, and the row then prints no line, since wrapping it gives no line.
\<close>

lemma whitespace_seller_row:
  "addMetaRow numberToString opts [] strSatici (Val (MetaString (asc ''  ''))) None = []"
  by (simp add: addMetaRow_def metaValueString_def wrapTextToWidth_def trim_def asc_def
      isSpace_def Let_def)

lemmas string_eval =
  asc_def trim_def isSpace_def spaceChar_def strSatisFisi_def strUrunBulunamadi_def
  strTesekkur_def strSiparisNo_def strTarih_def strMusteri_def strSatici_def
  strSiparisBilgileri_def strUrun_def strOdemeOzeti_def strAraToplam_def strIndirim_def
  strKDV_def strOdenen_def strParaUstu_def strGenelToplam_def strBorc_def

lemmas money_eval =
  formatDisplayMoney_def formatReceiptMoney_def toFixed_def digitsOf.simps digitChar_def
  toUpperCase_def upperUnit_def codeString_def resolvedTargetCurrency_def normalizeCurrency_def
  orDefault_def convertSummaryAmount_def convertAmount_def totalDisplay_def paidRaw_def
  resolvedPaid_def remainingRaw_def resolvedRemaining_def hasOutstandingDebt_def
  displayPaidAmount_def resolvedChange_def hasMeaningfulAmount_def epsilonDefault_def

lemma debtSale_amounts:
  "totalDisplay debtSale = 100" "resolvedPaid debtSale = 40" "resolvedRemaining debtSale = 60"
  "hasOutstandingDebt debtSale" "resolvedChange debtSale = 0"
  by (simp_all add: debtSale_def money_eval)

lemma debtSale_metaRows:
  "metaRows debtSale = [\<lparr>rowLabel = strSatici, rowValue = Val (MetaString strSatici)\<rparr>]"
  by (simp add: metaRows_def debtSale_def truthy_def orDefault_def)

lemma debtSale_columns:
  "pushResponsiveColumns debtSale [] strSatici strSatici None = [ColumnsLine strSatici strSatici 1 32 None]"
  "pushResponsiveColumns debtSale [] strOdenen (formatDisplayMoney wholeNumberString debtSale 100) None
     = [ColumnsLine strOdenen (asc ''100.00 TL'') 1 32 None]"
  by (simp_all add: pushResponsiveColumns_def Let_def debtSale_def money_eval string_eval)

lemma debtSale_centered:
  "toCenteredLine debtSale strSiparisBilgileri (Some PresetMedium)
     = TextLine (replicate 7 spaceChar @ strSiparisBilgileri @ replicate 8 spaceChar) (Some PresetMedium) None"
  "toCenteredLine debtSale strGenelToplam (Some PresetMedium)
     = TextLine (replicate 10 spaceChar @ strGenelToplam @ replicate 10 spaceChar) (Some PresetMedium) None"
  "toCenteredLine debtSale strTesekkur None
     = TextLine (replicate 8 spaceChar @ strTesekkur @ replicate 8 spaceChar) None None"
  by (simp_all add: toCenteredLine_def Let_def debtSale_def string_eval)

section \<open>The payment summary\<close>


lemma trim_strBorc: "trim strBorc \<noteq> []"
  by (simp add: string_eval)



section \<open>The outstanding-debt row\<close>

text \<open>The whole receipt of the sale with total 100 and paid 40.\<close>

lemma debtSale_receipt:
  "buildStandardReceiptLines wholeNumberString debtSale =
     [TextLine (replicate 11 spaceChar @ strSatisFisi @ replicate 11 spaceChar) (Some PresetMedium) None,
      SeparatorLine None 32,
      TextLine (replicate 7 spaceChar @ strSiparisBilgileri @ replicate 8 spaceChar) (Some PresetMedium) None,
      SeparatorLine (Some 0x2E) 32,
      ColumnsLine strSatici strSatici 1 32 None,
      SeparatorLine None 32,
      TextLine strUrunBulunamadi None (Some AlignCenter),
      SeparatorLine None 32,
      TextLine (replicate 10 spaceChar @ strOdemeOzeti @ replicate 11 spaceChar) (Some PresetMedium) None,
      SeparatorLine None 32,
      ColumnsLine strOdenen (asc ''100.00 TL'') 1 32 None,
      SeparatorLine (Some 0x2E) 32,
      TextLine (replicate 10 spaceChar @ strGenelToplam @ replicate 10 spaceChar) (Some PresetMedium) None,
      TextLine (asc ''100.00 TL'') (Some PresetLarge) None,
      EmptyLine 1,
      TextLine (replicate 8 spaceChar @ strTesekkur @ replicate 8 spaceChar) None None,
      EmptyLine 30]"
proof -
  have w: "receiptWidth debtSale = 32" by (simp add: debtSale_def)
  have tenant: "tenantBlock debtSale = []"
    by (simp add: tenantBlock_def debtSale_def orDefault_def)
  have ttl: "titleBlock debtSale =
      [TextLine (replicate 11 spaceChar @ strSatisFisi @ replicate 11 spaceChar) (Some PresetMedium) None,
       SeparatorLine None 32]"
    by (simp add: titleBlock_def toCenteredLine_def Let_def debtSale_def orDefault_def string_eval)
  have info: "orderInfoBlock wholeNumberString debtSale =
      [TextLine (replicate 7 spaceChar @ strSiparisBilgileri @ replicate 8 spaceChar) (Some PresetMedium) None,
       SeparatorLine (Some 0x2E) 32,
       ColumnsLine strSatici strSatici 1 32 None,
       SeparatorLine None 32]"
    unfolding orderInfoBlock_def debtSale_metaRows w debtSale_centered
    by (simp add: metaRowLines_def fallback_seller_row debtSale_columns)
  have its: "itemsBlock wholeNumberString debtSale = [TextLine strUrunBulunamadi None (Some AlignCenter)]"
    by (simp add: itemsBlock_def debtSale_def orDefault_def)
  have summ: "summaryRows wholeNumberString debtSale =
      [SeparatorLine None 32,
       TextLine (replicate 10 spaceChar @ strOdemeOzeti @ replicate 11 spaceChar) (Some PresetMedium) None,
       SeparatorLine None 32]"
    by (simp add: summaryRows_def toCenteredLine_def Let_def debtSale_def hasMeaningfulAmount_def
        epsilonDefault_def string_eval)
  have pd: "paidRow wholeNumberString debtSale = [ColumnsLine strOdenen (asc ''100.00 TL'') 1 32 None]"
    using debtSale_amounts by (simp add: paidRow_def columnsOf_def displayPaidAmount_def debtSale_columns)
  have ch: "changeRow wholeNumberString debtSale = []"
    by (simp add: changeRow_def debtSale_amounts hasMeaningfulAmount_def epsilonDefault_def)
  have f: "formatDisplayMoney wholeNumberString debtSale 100 = asc ''100.00 TL''"
    by (simp add: debtSale_def money_eval asc_def)
  have gt: "grandTotalBlock wholeNumberString debtSale =
      [SeparatorLine (Some 0x2E) 32,
       TextLine (replicate 10 spaceChar @ strGenelToplam @ replicate 10 spaceChar) (Some PresetMedium) None,
       TextLine (asc ''100.00 TL'') (Some PresetLarge) None]"
    unfolding grandTotalBlock_def w debtSale_centered debtSale_amounts f by simp
  have db: "debtRow wholeNumberString debtSale = []"
    by (simp add: debtRow_def hasOutstandingDebt_def)
  have ft: "footerBlock debtSale =
      [EmptyLine 1,
       TextLine (replicate 8 spaceChar @ strTesekkur @ replicate 8 spaceChar) None None,
       EmptyLine 30]"
  proof -
    have "thankYouMessage debtSale = Undefined" by (simp add: debtSale_def)
    then show ?thesis by (simp add: footerBlock_def thanksLines_def debtSale_centered)
  qed
  show ?thesis
    unfolding build_blocks tenant ttl info its summ pd ch gt db ft by simp
qed

text \<open>
  C1. The debt row is pushed, right after the grand-total line, exactly when
  \<open>hasOutstandingDebt\<close> is false and the resolved remaining amount is meaningful. Since
  \<open>hasOutstandingDebt\<close> is the meaningfulness of that amount, the condition never holds, and
  every receipt ends with the grand-total block, one blank line, the thank-you line if
  there is one, and thirty blank lines: no debt row, in particular for total 100 and
  paid 40.
\<close>

theorem debt_row:
  "(\<exists>pre. buildStandardReceiptLines numberToString opts =
      pre @ [SeparatorLine (Some 0x2E) (receiptWidth opts),
             toCenteredLine opts strGenelToplam (Some PresetMedium),
             TextLine (formatDisplayMoney numberToString opts (totalDisplay opts)) (Some PresetLarge) None]
          @ (if \<not> hasOutstandingDebt opts \<and> hasMeaningfulAmount (resolvedRemaining opts) epsilonDefault
             then pushResponsiveColumns opts [] strBorc
                    (formatDisplayMoney numberToString opts (resolvedRemaining opts)) None
             else [])
          @ [EmptyLine 1] @ thanksLines opts @ [EmptyLine 30])
   \<and> pushResponsiveColumns opts [] strBorc
         (formatDisplayMoney numberToString opts (resolvedRemaining opts)) None \<noteq> []
   \<and> hasOutstandingDebt opts = hasMeaningfulAmount (resolvedRemaining opts) epsilonDefault
   \<and> (\<exists>pre. buildStandardReceiptLines numberToString opts =
         pre @ [SeparatorLine (Some 0x2E) (receiptWidth opts),
                toCenteredLine opts strGenelToplam (Some PresetMedium),
                TextLine (formatDisplayMoney numberToString opts (totalDisplay opts)) (Some PresetLarge) None,
                EmptyLine 1]
             @ thanksLines opts @ [EmptyLine 30])"
proof -
  have blocks: "buildStandardReceiptLines numberToString opts =
      (tenantBlock opts @ titleBlock opts @ orderInfoBlock numberToString opts
         @ itemsBlock numberToString opts @ summaryRows numberToString opts
         @ paidRow numberToString opts @ changeRow numberToString opts)
      @ grandTotalBlock numberToString opts @ debtRow numberToString opts @ footerBlock opts"
    by (simp add: build_blocks)
  have guard: "hasOutstandingDebt opts = hasMeaningfulAmount (resolvedRemaining opts) epsilonDefault"
    by (simp add: hasOutstandingDebt_def)
  then have never: "debtRow numberToString opts = []"
    by (simp add: debtRow_def)
  have pushed: "pushResponsiveColumns opts [] strBorc
      (formatDisplayMoney numberToString opts (resolvedRemaining opts)) None \<noteq> []"
    using trim_strBorc by (simp add: pushResponsiveColumns_cases)
  from blocks have "\<exists>pre. buildStandardReceiptLines numberToString opts =
      pre @ grandTotalBlock numberToString opts @ debtRow numberToString opts @ footerBlock opts"
    by blast
  then have first: "\<exists>pre. buildStandardReceiptLines numberToString opts =
      pre @ [SeparatorLine (Some 0x2E) (receiptWidth opts),
             toCenteredLine opts strGenelToplam (Some PresetMedium),
             TextLine (formatDisplayMoney numberToString opts (totalDisplay opts)) (Some PresetLarge) None]
          @ (if \<not> hasOutstandingDebt opts \<and> hasMeaningfulAmount (resolvedRemaining opts) epsilonDefault
             then pushResponsiveColumns opts [] strBorc
                    (formatDisplayMoney numberToString opts (resolvedRemaining opts)) None
             else [])
          @ [EmptyLine 1] @ thanksLines opts @ [EmptyLine 30]"
    unfolding grandTotalBlock_def debtRow_def footerBlock_def columnsOf_def .
  from blocks never have "\<exists>pre. buildStandardReceiptLines numberToString opts =
      pre @ grandTotalBlock numberToString opts @ footerBlock opts"
    by (metis append_Nil)
  then have last: "\<exists>pre. buildStandardReceiptLines numberToString opts =
         pre @ [SeparatorLine (Some 0x2E) (receiptWidth opts),
                toCenteredLine opts strGenelToplam (Some PresetMedium),
                TextLine (formatDisplayMoney numberToString opts (totalDisplay opts)) (Some PresetLarge) None,
                EmptyLine 1]
             @ thanksLines opts @ [EmptyLine 30]"
    by (simp add: grandTotalBlock_def footerBlock_def)
  from first pushed guard last show ?thesis by blast
qed

theorem debt_row_witness:
  "hasOutstandingDebt debtSale \<and> resolvedRemaining debtSale = 60
   \<and> filter (labelled strBorc) (buildStandardReceiptLines wholeNumberString debtSale) = []
   \<and> (\<exists>pre. buildStandardReceiptLines wholeNumberString debtSale =
         pre @ [SeparatorLine (Some 0x2E) 32,
                TextLine (replicate 10 spaceChar @ strGenelToplam @ replicate 10 spaceChar)
                  (Some PresetMedium) None,
                TextLine (asc ''100.00 TL'') (Some PresetLarge) None,
                EmptyLine 1,
                TextLine (replicate 8 spaceChar @ strTesekkur @ replicate 8 spaceChar) None None,
                EmptyLine 30])"
proof -
  from debt_row [of wholeNumberString debtSale] obtain pre where
    eq: "buildStandardReceiptLines wholeNumberString debtSale =
         pre @ [SeparatorLine (Some 0x2E) (receiptWidth debtSale),
                toCenteredLine debtSale strGenelToplam (Some PresetMedium),
                TextLine (formatDisplayMoney wholeNumberString debtSale (totalDisplay debtSale))
                  (Some PresetLarge) None,
                EmptyLine 1]
             @ thanksLines debtSale @ [EmptyLine 30]"
    by blast
  have w: "receiptWidth debtSale = 32" by (simp add: debtSale_def)
  have t: "thanksLines debtSale = [toCenteredLine debtSale strTesekkur None]"
    by (simp add: thanksLines_def debtSale_def)
  have f: "formatDisplayMoney wholeNumberString debtSale 100 = asc ''100.00 TL''"
    by (simp add: debtSale_def money_eval asc_def)
  have "buildStandardReceiptLines wholeNumberString debtSale =
         pre @ [SeparatorLine (Some 0x2E) 32,
                TextLine (replicate 10 spaceChar @ strGenelToplam @ replicate 10 spaceChar)
                  (Some PresetMedium) None,
                TextLine (asc ''100.00 TL'') (Some PresetLarge) None,
                EmptyLine 1,
                TextLine (replicate 8 spaceChar @ strTesekkur @ replicate 8 spaceChar) None None,
                EmptyLine 30]"
    unfolding eq w t debtSale_amounts debtSale_centered f by simp
  moreover have "filter (labelled strBorc) (buildStandardReceiptLines wholeNumberString debtSale) = []"
    unfolding debtSale_receipt by (simp add: labelled_def string_eval)
  ultimately show ?thesis using debtSale_amounts by blast
qed

section \<open>Right texts of the columns\<close>

lemma trim_inked: "\<exists>c\<in>set s. \<not> isSpace c \<Longrightarrow> trim s \<noteq> []"
proof
  assume ink: "\<exists>c\<in>set s. \<not> isSpace c" and e: "trim s = []"
  define t where "t = dropWhile isSpace s"
  from ink have tne: "t \<noteq> []" by (auto simp: t_def)
  then have "\<not> isSpace (hd t)" unfolding t_def by (rule hd_dropWhile)
  moreover from e have "\<forall>c\<in>set t. isSpace c" by (simp add: trim_def t_def)
  moreover have "hd t \<in> set t" using tne by simp
  ultimately show False by blast
qed

lemma wrapStep_inked:
  assumes "\<forall>l\<in>set (wrapFlush st). \<exists>c\<in>set l. \<not> isSpace c"
    and "\<forall>c\<in>set w. \<not> isSpace c"
  shows "\<forall>l\<in>set (wrapFlush (wrapStep width st w)). \<exists>c\<in>set l. \<not> isSpace c"
proof (cases "w = []")
  case True
  with assms(1) show ?thesis by (simp add: wrapStep_empty)
next
  case False
  then have w: "\<exists>c\<in>set w. \<not> isSpace c" using assms(2) by (cases w) auto
  obtain res cur where st: "st = (res, cur)" by (cases st)
  from assms(1) have res: "\<forall>l\<in>set res. \<exists>c\<in>set l. \<not> isSpace c"
    by (auto simp: wrapFlush_def st split: if_splits)
  from assms(1) have cur: "cur \<noteq> [] \<Longrightarrow> \<exists>c\<in>set cur. \<not> isSpace c"
    by (auto simp: wrapFlush_def st split: if_splits)
  show ?thesis
    using False w res cur by (auto simp: wrapStep_def wrapFlush_def st Let_def)
qed

lemma wrapFold_inked:
  assumes "\<forall>l\<in>set (wrapFlush st). \<exists>c\<in>set l. \<not> isSpace c"
    and "\<forall>w\<in>set ws. \<forall>c\<in>set w. \<not> isSpace c"
  shows "\<forall>l\<in>set (wrapFlush (foldl (wrapStep width) st ws)). \<exists>c\<in>set l. \<not> isSpace c"
  using assms
proof (induction ws arbitrary: st)
  case Nil
  then show ?case by simp
next
  case (Cons w ws)
  have "\<forall>l\<in>set (wrapFlush (wrapStep width st w)). \<exists>c\<in>set l. \<not> isSpace c"
    using Cons.prems by (intro wrapStep_inked) auto
  then show ?case using Cons.IH [of "wrapStep width st w"] Cons.prems(2) by simp
qed

lemma wrap_lines_inked:
  assumes "line \<in> set (wrapTextToWidth v width)"
  shows "trim line \<noteq> []"
proof -
  have "\<exists>c\<in>set line. \<not> isSpace c"
  proof (cases "trim v = [] \<or> int (length (trim v)) \<le> width")
    case True
    with assms have l: "line = trim v" "trim v \<noteq> []"
      by (auto simp: wrapTextToWidth_cases split: if_splits)
    then have "\<not> isSpace (hd (trim v))" using trim_hd by blast
    with l show ?thesis by (metis hd_in_set)
  next
    case False
    with assms have "line \<in> set (wrapFlush (foldl (wrapStep width) ([], []) (splitWs (trim v))))"
      by (simp add: wrapTextToWidth_cases)
    moreover have "\<forall>l\<in>set (wrapFlush (foldl (wrapStep width) ([], []) (splitWs (trim v)))).
        \<exists>c\<in>set l. \<not> isSpace c"
      using splitWs_spacefree by (intro wrapFold_inked) (auto simp: wrapFlush_def)
    ultimately show ?thesis by blast
  qed
  then show ?thesis by (rule trim_inked)
qed

lemma minus_formatDisplayMoney_trim:
  "trim (asc ''-'' @ formatDisplayMoney numberToString opts x) \<noteq> []"
  by (rule trim_inked) (simp add: asc_def isSpace_def)

section \<open>The seller row\<close>

lemma wrap_nonempty: "trim v \<noteq> [] \<Longrightarrow> wrapTextToWidth v width \<noteq> []"
proof
  assume ne: "trim v \<noteq> []" and e: "wrapTextToWidth v width = []"
  have "dropWhile isSpace (trim v) \<noteq> []"
    using ne trim_hd [OF ne] by (cases "trim v") auto
  then have "wordsOf (trim v) \<noteq> []" by (simp add: wordsOf_some)
  then have "wordsOf v \<noteq> []" by (simp add: wordsOf_trim)
  moreover have "concat (map wordsOf (wrapTextToWidth v width)) = wordsOf v" by (rule wrap_words)
  ultimately show False using e by simp
qed

lemma metaRows_explicit:
  "metaRows opts =
     (if truthy (orderNumber opts)
      then [\<lparr>rowLabel = strSiparisNo, rowValue = Val (MetaString (valOf (orderNumber opts)))\<rparr>] else [])
     @ (if truthy (createdAtText opts)
        then [\<lparr>rowLabel = strTarih, rowValue = Val (MetaString (valOf (createdAtText opts)))\<rparr>] else [])
     @ (if truthy (customerName opts)
        then [\<lparr>rowLabel = strMusteri, rowValue = Val (MetaString (valOf (customerName opts)))\<rparr>] else [])
     @ [\<lparr>rowLabel = strSatici, rowValue = Val (MetaString (sellerValue opts))\<rparr>]
     @ orDefault [] (extraMetaRows opts)"
  by (simp add: metaRows_def Let_def sellerValue_def)

lemma seller_row_lines:
  assumes ink: "trim sv \<noteq> []"
  shows "\<exists>first rest.
      wrapTextToWidth sv (max (receiptWidth opts - receiptIndent opts) 8) = first # rest
    \<and> trim first \<noteq> []
    \<and> addMetaRow numberToString opts [] strSatici (Val (MetaString sv)) None =
        (if 6 + int (length (trim first)) + 2 \<le> max (receiptWidth opts - receiptIndent opts) 8
         then [ColumnsLine strSatici (trim first) (receiptIndent opts) (receiptWidth opts) None]
         else [TextLine strSatici None None,
               ColumnsLine [] (trim first) (receiptIndent opts) (receiptWidth opts) None])
        @ concat (map (\<lambda>line. pushResponsiveColumns opts [] [] line None) rest)"
proof -
  define aw where "aw = max (receiptWidth opts - receiptIndent opts) 8"
  from ink have sv: "sv \<noteq> []" by (auto simp: trim_def)
  from wrap_nonempty [OF ink] obtain first rest where
    wr: "wrapTextToWidth sv aw = first # rest" by (cases "wrapTextToWidth sv aw") auto
  then have "first \<in> set (wrapTextToWidth sv aw)" by simp
  then have tf: "trim first \<noteq> []" by (rule wrap_lines_inked)
  have fold: "foldl (\<lambda>ls line. pushResponsiveColumns opts ls [] line None)
        (pushResponsiveColumns opts [] strSatici first None) rest
      = pushResponsiveColumns opts [] strSatici first None
        @ concat (map (\<lambda>line. pushResponsiveColumns opts [] [] line None) rest)"
    by (rule foldl_append_step) (rule pushResponsiveColumns_append [unfolded columnsOf_def])
  have s: "trim strSatici = strSatici" "length strSatici = 6" "strSatici \<noteq> []"
    by (simp_all add: trim_strSatici) (simp_all add: strSatici_def asc_def)
  have first_row: "pushResponsiveColumns opts [] strSatici first None =
      (if 6 + int (length (trim first)) + 2 \<le> aw
       then [ColumnsLine strSatici (trim first) (receiptIndent opts) (receiptWidth opts) None]
       else [TextLine strSatici None None,
             ColumnsLine [] (trim first) (receiptIndent opts) (receiptWidth opts) None])"
    using tf s by (simp add: pushResponsiveColumns_cases aw_def)
  have "addMetaRow numberToString opts [] strSatici (Val (MetaString sv)) None =
      foldl (\<lambda>ls line. pushResponsiveColumns opts ls [] line None)
        (pushResponsiveColumns opts [] strSatici first None) rest"
    using sv wr by (simp add: addMetaRow_def metaValueString_def Let_def aw_def)
  with fold first_row wr tf show ?thesis unfolding aw_def by auto
qed

lemma blank_seller_row:
  assumes "trim sv = []"
  shows "addMetaRow numberToString opts [] strSatici (Val (MetaString sv)) None = []"
  using assms by (simp add: addMetaRow_def metaValueString_def Let_def wrapTextToWidth_cases)

lemma order_info_head:
  "\<exists>post. buildStandardReceiptLines numberToString opts =
     tenantBlock opts @ titleBlock opts
     @ [toCenteredLine opts strSiparisBilgileri (Some PresetMedium),
        SeparatorLine (Some 0x2E) (receiptWidth opts)]
     @ concat (map (\<lambda>row. addMetaRow numberToString opts [] (rowLabel row) (rowValue row) None)
         (metaRows opts))
     @ [SeparatorLine None (receiptWidth opts)] @ post"
proof -
  have m: "metaRowLines numberToString opts
      = (\<lambda>row. addMetaRow numberToString opts [] (rowLabel row) (rowValue row) None)"
    by (intro ext) (simp add: metaRowLines_def)
  have "orderInfoBlock numberToString opts =
      [toCenteredLine opts strSiparisBilgileri (Some PresetMedium),
       SeparatorLine (Some 0x2E) (receiptWidth opts)]
      @ concat (map (\<lambda>row. addMetaRow numberToString opts [] (rowLabel row) (rowValue row) None)
          (metaRows opts))
      @ [SeparatorLine None (receiptWidth opts)]"
    by (simp add: orderInfoBlock_def metaRows_nonempty m)
  then show ?thesis
    unfolding build_blocks by (simp only: append_assoc) blast
qed

lemma plain_sale_blocks:
  assumes "tenantHeaderLines opts = None" and "title opts = None" and "items opts = []"
    and "itemsEmptyMessage opts = None" and "subtotal opts = 0" and "totalDiscount opts = 0"
    and "totalTax opts = 0" and "thankYouMessage opts = Undefined" and "receiptWidth opts = 32"
  shows "tenantBlock opts = []"
    and "titleBlock opts =
      [TextLine (replicate 11 spaceChar @ strSatisFisi @ replicate 11 spaceChar) (Some PresetMedium) None,
       SeparatorLine None 32]"
    and "itemsBlock numberToString opts = [TextLine strUrunBulunamadi None (Some AlignCenter)]"
    and "summaryRows numberToString opts =
      [SeparatorLine None 32,
       TextLine (replicate 10 spaceChar @ strOdemeOzeti @ replicate 11 spaceChar) (Some PresetMedium) None,
       SeparatorLine None 32]"
    and "footerBlock opts =
      [EmptyLine 1,
       TextLine (replicate 8 spaceChar @ strTesekkur @ replicate 8 spaceChar) None None,
       EmptyLine 30]"
    and "toCenteredLine opts strSiparisBilgileri (Some PresetMedium)
      = TextLine (replicate 7 spaceChar @ strSiparisBilgileri @ replicate 8 spaceChar) (Some PresetMedium) None"
    and "toCenteredLine opts strGenelToplam (Some PresetMedium)
      = TextLine (replicate 10 spaceChar @ strGenelToplam @ replicate 10 spaceChar) (Some PresetMedium) None"
  using assms
  by (simp_all add: tenantBlock_def titleBlock_def itemsBlock_def summaryRows_def footerBlock_def
      thanksLines_def toCenteredLine_def Let_def orDefault_def hasMeaningfulAmount_def
      epsilonDefault_def string_eval)

lemma sale_fields:
  "tenantHeaderLines refundSale = None" "title refundSale = None" "items refundSale = []"
  "itemsEmptyMessage refundSale = None" "subtotal refundSale = 0" "totalDiscount refundSale = 0"
  "totalTax refundSale = 0" "thankYouMessage refundSale = Undefined" "receiptWidth refundSale = 32"
  "tenantHeaderLines blankSellerSale = None" "title blankSellerSale = None" "items blankSellerSale = []"
  "itemsEmptyMessage blankSellerSale = None" "subtotal blankSellerSale = 0"
  "totalDiscount blankSellerSale = 0" "totalTax blankSellerSale = 0"
  "thankYouMessage blankSellerSale = Undefined" "receiptWidth blankSellerSale = 32"
  "tenantHeaderLines namedSellerSale = None" "title namedSellerSale = None"
  "receiptWidth namedSellerSale = 32"
  by (simp_all add: refundSale_def blankSellerSale_def namedSellerSale_def debtSale_def)

lemma blankSellerSale_rows:
  "sellerName blankSellerSale = Val (asc ''  '')"
  "sellerValue blankSellerSale = asc ''  ''"
  "trim (sellerValue blankSellerSale) = []"
  "metaRows blankSellerSale = [\<lparr>rowLabel = strSatici, rowValue = Val (MetaString (asc ''  ''))\<rparr>]"
  "totalDisplay blankSellerSale = 100" "displayPaidAmount blankSellerSale = 100"
  "\<not> hasMeaningfulAmount (resolvedChange blankSellerSale) epsilonDefault"
  "pushResponsiveColumns blankSellerSale [] strOdenen (formatDisplayMoney wholeNumberString blankSellerSale 100) None
     = [ColumnsLine strOdenen (asc ''100.00 TL'') 1 32 None]"
  by (simp_all add: sellerValue_def metaRows_def truthy_def valOf_def orDefault_def
      pushResponsiveColumns_def Let_def blankSellerSale_def debtSale_def money_eval string_eval)

lemma blankSellerSale_money:
  "formatDisplayMoney wholeNumberString blankSellerSale 100 = asc ''100.00 TL''"
  by (simp add: blankSellerSale_def debtSale_def money_eval asc_def)

lemma blankSellerSale_receipt:
  "buildStandardReceiptLines wholeNumberString blankSellerSale =
     [TextLine (replicate 11 spaceChar @ strSatisFisi @ replicate 11 spaceChar) (Some PresetMedium) None,
      SeparatorLine None 32,
      TextLine (replicate 7 spaceChar @ strSiparisBilgileri @ replicate 8 spaceChar) (Some PresetMedium) None,
      SeparatorLine (Some 0x2E) 32,
      SeparatorLine None 32,
      TextLine strUrunBulunamadi None (Some AlignCenter),
      SeparatorLine None 32,
      TextLine (replicate 10 spaceChar @ strOdemeOzeti @ replicate 11 spaceChar) (Some PresetMedium) None,
      SeparatorLine None 32,
      ColumnsLine strOdenen (asc ''100.00 TL'') 1 32 None,
      SeparatorLine (Some 0x2E) 32,
      TextLine (replicate 10 spaceChar @ strGenelToplam @ replicate 10 spaceChar) (Some PresetMedium) None,
      TextLine (asc ''100.00 TL'') (Some PresetLarge) None,
      EmptyLine 1,
      TextLine (replicate 8 spaceChar @ strTesekkur @ replicate 8 spaceChar) None None,
      EmptyLine 30]"
proof -
  note b = plain_sale_blocks [where opts = blankSellerSale, OF sale_fields(10-18)]
  have row: "addMetaRow wholeNumberString blankSellerSale [] strSatici (Val (MetaString (asc ''  ''))) None = []"
    by (rule whitespace_seller_row)
  have info: "orderInfoBlock wholeNumberString blankSellerSale =
      [TextLine (replicate 7 spaceChar @ strSiparisBilgileri @ replicate 8 spaceChar) (Some PresetMedium) None,
       SeparatorLine (Some 0x2E) 32,
       SeparatorLine None 32]"
    unfolding orderInfoBlock_def blankSellerSale_rows(4) sale_fields(18) b(6)
    by (simp add: metaRowLines_def row)
  have pd: "paidRow wholeNumberString blankSellerSale = [ColumnsLine strOdenen (asc ''100.00 TL'') 1 32 None]"
    by (simp add: paidRow_def columnsOf_def blankSellerSale_rows(6,8))
  have ch: "changeRow wholeNumberString blankSellerSale = []"
    using blankSellerSale_rows(7) by (simp add: changeRow_def)
  have gt: "grandTotalBlock wholeNumberString blankSellerSale =
      [SeparatorLine (Some 0x2E) 32,
       TextLine (replicate 10 spaceChar @ strGenelToplam @ replicate 10 spaceChar) (Some PresetMedium) None,
       TextLine (asc ''100.00 TL'') (Some PresetLarge) None]"
    unfolding grandTotalBlock_def sale_fields(18) b(7) blankSellerSale_rows(5) blankSellerSale_money by simp
  have db: "debtRow wholeNumberString blankSellerSale = []"
    by (simp add: debtRow_def hasOutstandingDebt_def)
  show ?thesis
    unfolding build_blocks b(1-5) info pd ch gt db by simp
qed

text \<open>
  C9, as amended. The list of meta rows is the order number, date and customer rows that
  are present, then the seller row, then the extra rows; the value of the seller row is
  the seller name, or the fallback label when the seller name is absent or empty. So the
  list is never empty, and every receipt has the order-info block right after the title
  block: the centered subtitle, the dotted separator, the lines of the meta rows and the
  closing separator. The seller row is printed, with the label in the left column (or on
  a line of its own when the two do not fit), exactly when its value is not white space
  only: the fallback label always is printed, and a seller name of white space only is
  kept as the value and prints no line.
\<close>

theorem order_info_block:
  "metaRows opts =
     (if truthy (orderNumber opts)
      then [\<lparr>rowLabel = strSiparisNo, rowValue = Val (MetaString (valOf (orderNumber opts)))\<rparr>] else [])
     @ (if truthy (createdAtText opts)
        then [\<lparr>rowLabel = strTarih, rowValue = Val (MetaString (valOf (createdAtText opts)))\<rparr>] else [])
     @ (if truthy (customerName opts)
        then [\<lparr>rowLabel = strMusteri, rowValue = Val (MetaString (valOf (customerName opts)))\<rparr>] else [])
     @ [\<lparr>rowLabel = strSatici, rowValue = Val (MetaString (sellerValue opts))\<rparr>]
     @ orDefault [] (extraMetaRows opts)
   \<and> sellerValue opts = (if truthy (sellerName opts) then valOf (sellerName opts) else strSatici)
   \<and> metaRows opts \<noteq> []
   \<and> (\<exists>post. buildStandardReceiptLines numberToString opts =
         tenantBlock opts @ titleBlock opts
         @ [toCenteredLine opts strSiparisBilgileri (Some PresetMedium),
            SeparatorLine (Some 0x2E) (receiptWidth opts)]
         @ concat (map (\<lambda>row. addMetaRow numberToString opts [] (rowLabel row) (rowValue row) None)
             (metaRows opts))
         @ [SeparatorLine None (receiptWidth opts)] @ post)
   \<and> (trim (sellerValue opts) \<noteq> [] \<longrightarrow>
        (\<exists>first rest.
            wrapTextToWidth (sellerValue opts) (max (receiptWidth opts - receiptIndent opts) 8) = first # rest
          \<and> trim first \<noteq> []
          \<and> addMetaRow numberToString opts [] strSatici (Val (MetaString (sellerValue opts))) None =
              (if 6 + int (length (trim first)) + 2 \<le> max (receiptWidth opts - receiptIndent opts) 8
               then [ColumnsLine strSatici (trim first) (receiptIndent opts) (receiptWidth opts) None]
               else [TextLine strSatici None None,
                     ColumnsLine [] (trim first) (receiptIndent opts) (receiptWidth opts) None])
              @ concat (map (\<lambda>line. pushResponsiveColumns opts [] [] line None) rest)))
   \<and> (trim (sellerValue opts) = [] \<longrightarrow>
        addMetaRow numberToString opts [] strSatici (Val (MetaString (sellerValue opts))) None = [])
   \<and> (\<not> truthy (sellerName opts) \<longrightarrow>
        sellerValue opts = strSatici \<and> trim (sellerValue opts) \<noteq> []
        \<and> wrapTextToWidth (sellerValue opts) (max (receiptWidth opts - receiptIndent opts) 8) = [strSatici])"
proof -
  have fallback: "\<not> truthy (sellerName opts) \<longrightarrow>
        sellerValue opts = strSatici \<and> trim (sellerValue opts) \<noteq> []
        \<and> wrapTextToWidth (sellerValue opts) (max (receiptWidth opts - receiptIndent opts) 8) = [strSatici]"
  proof
    assume "\<not> truthy (sellerName opts)"
    then have v: "sellerValue opts = strSatici" by (simp add: sellerValue_def)
    have n: "trim strSatici \<noteq> []" "int (length (trim strSatici)) \<le> max (receiptWidth opts - receiptIndent opts) 8"
      by (simp_all add: trim_strSatici) (simp_all add: strSatici_def asc_def)
    have "wrapTextToWidth strSatici (max (receiptWidth opts - receiptIndent opts) 8) = [trim strSatici]"
      unfolding wrapTextToWidth_cases using n by (simp only: if_True if_False)
    with v n show "sellerValue opts = strSatici \<and> trim (sellerValue opts) \<noteq> []
        \<and> wrapTextToWidth (sellerValue opts) (max (receiptWidth opts - receiptIndent opts) 8) = [strSatici]"
      by (simp add: trim_strSatici)
  qed
  from metaRows_explicit [of opts] metaRows_nonempty [of opts] order_info_head [of numberToString opts]
    seller_row_lines [of "sellerValue opts" opts numberToString]
    blank_seller_row [of "sellerValue opts" numberToString opts] fallback
  show ?thesis by (simp only: sellerValue_def [symmetric]) (simp add: sellerValue_def)
qed

theorem order_info_block_witness:
  "sellerValue debtSale = strSatici
   \<and> addMetaRow wholeNumberString debtSale [] strSatici (Val (MetaString (sellerValue debtSale))) None
       = [ColumnsLine strSatici strSatici 1 32 None]
   \<and> sellerValue namedSellerSale = asc ''Ayla Kaya''
   \<and> (\<exists>post. buildStandardReceiptLines wholeNumberString namedSellerSale =
         [TextLine (replicate 11 spaceChar @ strSatisFisi @ replicate 11 spaceChar) (Some PresetMedium) None,
          SeparatorLine None 32,
          TextLine (replicate 7 spaceChar @ strSiparisBilgileri @ replicate 8 spaceChar)
            (Some PresetMedium) None,
          SeparatorLine (Some 0x2E) 32,
          ColumnsLine strSatici (asc ''Ayla Kaya'') 1 32 None,
          SeparatorLine None 32] @ post)
   \<and> trim (sellerValue blankSellerSale) = []
   \<and> addMetaRow wholeNumberString blankSellerSale [] strSatici
         (Val (MetaString (sellerValue blankSellerSale))) None = []"
proof -
  have d: "\<not> truthy (sellerName debtSale)" "receiptWidth debtSale = 32" "receiptIndent debtSale = 1"
    by (simp_all add: debtSale_def truthy_def)
  from order_info_block [of debtSale wholeNumberString] d(1) obtain first rest where
    "sellerValue debtSale = strSatici"
    and "wrapTextToWidth (sellerValue debtSale) (max (receiptWidth debtSale - receiptIndent debtSale) 8) = [strSatici]"
    and "wrapTextToWidth (sellerValue debtSale) (max (receiptWidth debtSale - receiptIndent debtSale) 8) = first # rest"
    and "addMetaRow wholeNumberString debtSale [] strSatici (Val (MetaString (sellerValue debtSale))) None =
          (if 6 + int (length (trim first)) + 2 \<le> max (receiptWidth debtSale - receiptIndent debtSale) 8
           then [ColumnsLine strSatici (trim first) (receiptIndent debtSale) (receiptWidth debtSale) None]
           else [TextLine strSatici None None,
                 ColumnsLine [] (trim first) (receiptIndent debtSale) (receiptWidth debtSale) None])
          @ concat (map (\<lambda>line. pushResponsiveColumns debtSale [] [] line None) rest)"
    by blast
  note inst = this
  from inst(2,3) have fr: "first = strSatici" "rest = []" by simp_all
  have len: "int (length strSatici) = 6" by (simp add: strSatici_def asc_def)
  have drow: "addMetaRow wholeNumberString debtSale [] strSatici (Val (MetaString (sellerValue debtSale))) None
       = [ColumnsLine strSatici strSatici 1 32 None]"
    unfolding inst(4) fr trim_strSatici d(2,3) len by simp
  have n: "sellerValue namedSellerSale = asc ''Ayla Kaya''"
    "metaRows namedSellerSale = [\<lparr>rowLabel = strSatici, rowValue = Val (MetaString (asc ''Ayla Kaya''))\<rparr>]"
    "addMetaRow wholeNumberString namedSellerSale [] strSatici (Val (MetaString (asc ''Ayla Kaya''))) None
       = [ColumnsLine strSatici (asc ''Ayla Kaya'') 1 32 None]"
    by (simp_all add: sellerValue_def metaRows_def truthy_def valOf_def orDefault_def addMetaRow_def
        metaValueString_def wrapTextToWidth_def pushResponsiveColumns_def Let_def
        namedSellerSale_def debtSale_def string_eval)
  have nb: "tenantBlock namedSellerSale = []"
    "titleBlock namedSellerSale =
      [TextLine (replicate 11 spaceChar @ strSatisFisi @ replicate 11 spaceChar) (Some PresetMedium) None,
       SeparatorLine None 32]"
    "toCenteredLine namedSellerSale strSiparisBilgileri (Some PresetMedium)
      = TextLine (replicate 7 spaceChar @ strSiparisBilgileri @ replicate 8 spaceChar) (Some PresetMedium) None"
    using sale_fields(19-21)
    by (simp_all add: tenantBlock_def titleBlock_def toCenteredLine_def Let_def orDefault_def string_eval)
  from order_info_block [of namedSellerSale wholeNumberString] obtain post where
    "buildStandardReceiptLines wholeNumberString namedSellerSale =
         tenantBlock namedSellerSale @ titleBlock namedSellerSale
         @ [toCenteredLine namedSellerSale strSiparisBilgileri (Some PresetMedium),
            SeparatorLine (Some 0x2E) (receiptWidth namedSellerSale)]
         @ concat (map (\<lambda>row. addMetaRow wholeNumberString namedSellerSale [] (rowLabel row) (rowValue row) None)
             (metaRows namedSellerSale))
         @ [SeparatorLine None (receiptWidth namedSellerSale)] @ post"
    by blast
  then have "buildStandardReceiptLines wholeNumberString namedSellerSale =
         [TextLine (replicate 11 spaceChar @ strSatisFisi @ replicate 11 spaceChar) (Some PresetMedium) None,
          SeparatorLine None 32,
          TextLine (replicate 7 spaceChar @ strSiparisBilgileri @ replicate 8 spaceChar)
            (Some PresetMedium) None,
          SeparatorLine (Some 0x2E) 32,
          ColumnsLine strSatici (asc ''Ayla Kaya'') 1 32 None,
          SeparatorLine None 32] @ post"
    unfolding nb n(2) sale_fields(21) by (simp add: n(3))
  then have nrow: "\<exists>post. buildStandardReceiptLines wholeNumberString namedSellerSale =
         [TextLine (replicate 11 spaceChar @ strSatisFisi @ replicate 11 spaceChar) (Some PresetMedium) None,
          SeparatorLine None 32,
          TextLine (replicate 7 spaceChar @ strSiparisBilgileri @ replicate 8 spaceChar)
            (Some PresetMedium) None,
          SeparatorLine (Some 0x2E) 32,
          ColumnsLine strSatici (asc ''Ayla Kaya'') 1 32 None,
          SeparatorLine None 32] @ post"
    by blast
  have "addMetaRow wholeNumberString blankSellerSale [] strSatici
         (Val (MetaString (sellerValue blankSellerSale))) None = []"
    using order_info_block [of blankSellerSale wholeNumberString] blankSellerSale_rows(3) by blast
  with inst(1) drow n(1) nrow blankSellerSale_rows(3) show ?thesis by blast
qed

text \<open>
  The claim as stated fails for a seller name of white space only: the fallback label is
  not taken, and the order-info block has no seller row between its separators.
\<close>

theorem order_info_block_counterexample:
  "sellerName blankSellerSale = Val (asc ''  '')
   \<and> metaRows blankSellerSale = [\<lparr>rowLabel = strSatici, rowValue = Val (MetaString (asc ''  ''))\<rparr>]
   \<and> filter (labelled strSatici) (buildStandardReceiptLines wholeNumberString blankSellerSale) = []
   \<and> take 5 (buildStandardReceiptLines wholeNumberString blankSellerSale) =
       [TextLine (replicate 11 spaceChar @ strSatisFisi @ replicate 11 spaceChar) (Some PresetMedium) None,
        SeparatorLine None 32,
        TextLine (replicate 7 spaceChar @ strSiparisBilgileri @ replicate 8 spaceChar) (Some PresetMedium) None,
        SeparatorLine (Some 0x2E) 32,
        SeparatorLine None 32]"
proof -
  have "filter (labelled strSatici) (buildStandardReceiptLines wholeNumberString blankSellerSale) = []"
    unfolding blankSellerSale_receipt by (simp add: labelled_def string_eval)
  moreover have "take 5 (buildStandardReceiptLines wholeNumberString blankSellerSale) =
       [TextLine (replicate 11 spaceChar @ strSatisFisi @ replicate 11 spaceChar) (Some PresetMedium) None,
        SeparatorLine None 32,
        TextLine (replicate 7 spaceChar @ strSiparisBilgileri @ replicate 8 spaceChar) (Some PresetMedium) None,
        SeparatorLine (Some 0x2E) 32,
        SeparatorLine None 32]"
    unfolding blankSellerSale_receipt by simp
  ultimately show ?thesis using blankSellerSale_rows(1,4) by blast
qed

section \<open>The change row\<close>

lemma refundSale_amounts:
  "changeAmount refundSale = Some (- 5)" "resolvedChange refundSale = - 5"
  "totalDisplay refundSale = 100" "displayPaidAmount refundSale = 100"
  "hasMeaningfulAmount (resolvedChange refundSale) epsilonDefault"
  "\<not> hasOutstandingDebt refundSale"
  by (simp_all add: refundSale_def debtSale_def money_eval)

lemma refundSale_rows:
  "metaRows refundSale = [\<lparr>rowLabel = strSatici, rowValue = Val (MetaString strSatici)\<rparr>]"
  "pushResponsiveColumns refundSale [] strSatici strSatici None = [ColumnsLine strSatici strSatici 1 32 None]"
  "pushResponsiveColumns refundSale [] strOdenen (formatDisplayMoney wholeNumberString refundSale 100) None
     = [ColumnsLine strOdenen (asc ''100.00 TL'') 1 32 None]"
  "pushResponsiveColumns refundSale [] strParaUstu (formatDisplayMoney wholeNumberString refundSale (- 5)) None
     = [ColumnsLine strParaUstu (asc ''-5.00 TL'') 1 32 None]"
  "formatDisplayMoney wholeNumberString refundSale 100 = asc ''100.00 TL''"
  by (simp_all add: metaRows_def truthy_def orDefault_def pushResponsiveColumns_def Let_def
      refundSale_def debtSale_def money_eval string_eval)

text \<open>
  C6. The code at a sale paid in full (total 100, paid 100, remaining 0) with a supplied
  change amount of -5: the supplied amount is not clamped, and the receipt has the change
  row with the amount \<open>-5.00 TL\<close>. A supplied remaining amount that is negative is
  clamped to 0.
\<close>

theorem supplied_negative_change:
  "changeAmount refundSale = Some (- 5) \<and> resolvedChange refundSale = - 5
   \<and> buildStandardReceiptLines wholeNumberString refundSale =
       [TextLine (replicate 11 spaceChar @ strSatisFisi @ replicate 11 spaceChar) (Some PresetMedium) None,
        SeparatorLine None 32,
        TextLine (replicate 7 spaceChar @ strSiparisBilgileri @ replicate 8 spaceChar) (Some PresetMedium) None,
        SeparatorLine (Some 0x2E) 32,
        ColumnsLine strSatici strSatici 1 32 None,
        SeparatorLine None 32,
        TextLine strUrunBulunamadi None (Some AlignCenter),
        SeparatorLine None 32,
        TextLine (replicate 10 spaceChar @ strOdemeOzeti @ replicate 11 spaceChar) (Some PresetMedium) None,
        SeparatorLine None 32,
        ColumnsLine strOdenen (asc ''100.00 TL'') 1 32 None,
        ColumnsLine strParaUstu (asc ''-5.00 TL'') 1 32 None,
        SeparatorLine (Some 0x2E) 32,
        TextLine (replicate 10 spaceChar @ strGenelToplam @ replicate 10 spaceChar) (Some PresetMedium) None,
        TextLine (asc ''100.00 TL'') (Some PresetLarge) None,
        EmptyLine 1,
        TextLine (replicate 8 spaceChar @ strTesekkur @ replicate 8 spaceChar) None None,
        EmptyLine 30]
   \<and> remaining overpaidSale = Some (- 3) \<and> remainingRaw overpaidSale = 0"
proof -
  note b = plain_sale_blocks [where opts = refundSale, OF sale_fields(1-9)]
  have info: "orderInfoBlock wholeNumberString refundSale =
      [TextLine (replicate 7 spaceChar @ strSiparisBilgileri @ replicate 8 spaceChar) (Some PresetMedium) None,
       SeparatorLine (Some 0x2E) 32,
       ColumnsLine strSatici strSatici 1 32 None,
       SeparatorLine None 32]"
    unfolding orderInfoBlock_def refundSale_rows(1) sale_fields(9) b(6)
    by (simp add: metaRowLines_def fallback_seller_row refundSale_rows(2))
  have pd: "paidRow wholeNumberString refundSale = [ColumnsLine strOdenen (asc ''100.00 TL'') 1 32 None]"
    by (simp add: paidRow_def columnsOf_def refundSale_amounts refundSale_rows(3))
  have ch: "changeRow wholeNumberString refundSale = [ColumnsLine strParaUstu (asc ''-5.00 TL'') 1 32 None]"
    using refundSale_amounts(5) by (simp add: changeRow_def columnsOf_def refundSale_amounts(2) refundSale_rows(4))
  have gt: "grandTotalBlock wholeNumberString refundSale =
      [SeparatorLine (Some 0x2E) 32,
       TextLine (replicate 10 spaceChar @ strGenelToplam @ replicate 10 spaceChar) (Some PresetMedium) None,
       TextLine (asc ''100.00 TL'') (Some PresetLarge) None]"
    unfolding grandTotalBlock_def sale_fields(9) b(7) refundSale_amounts(3) refundSale_rows(5) by simp
  have db: "debtRow wholeNumberString refundSale = []"
    by (simp add: debtRow_def hasOutstandingDebt_def)
  have receipt: "buildStandardReceiptLines wholeNumberString refundSale =
       [TextLine (replicate 11 spaceChar @ strSatisFisi @ replicate 11 spaceChar) (Some PresetMedium) None,
        SeparatorLine None 32,
        TextLine (replicate 7 spaceChar @ strSiparisBilgileri @ replicate 8 spaceChar) (Some PresetMedium) None,
        SeparatorLine (Some 0x2E) 32,
        ColumnsLine strSatici strSatici 1 32 None,
        SeparatorLine None 32,
        TextLine strUrunBulunamadi None (Some AlignCenter),
        SeparatorLine None 32,
        TextLine (replicate 10 spaceChar @ strOdemeOzeti @ replicate 11 spaceChar) (Some PresetMedium) None,
        SeparatorLine None 32,
        ColumnsLine strOdenen (asc ''100.00 TL'') 1 32 None,
        ColumnsLine strParaUstu (asc ''-5.00 TL'') 1 32 None,
        SeparatorLine (Some 0x2E) 32,
        TextLine (replicate 10 spaceChar @ strGenelToplam @ replicate 10 spaceChar) (Some PresetMedium) None,
        TextLine (asc ''100.00 TL'') (Some PresetLarge) None,
        EmptyLine 1,
        TextLine (replicate 8 spaceChar @ strTesekkur @ replicate 8 spaceChar) None None,
        EmptyLine 30]"
    unfolding build_blocks b(1-5) info pd ch gt db by simp
  have "remaining overpaidSale = Some (- 3)" "remainingRaw overpaidSale = 0"
    by (simp_all add: overpaidSale_def debtSale_def remainingRaw_def)
  with receipt refundSale_amounts(1,2) show ?thesis by blast
qed

section \<open>The two-column emitter at its calls\<close>

text \<open>
  C5. With the trimmed left and right texts, and a right text that is not empty: when
  \<open>left.length + right.length + 2\<close> is at most the available width
  \<open>max (receiptWidth - receiptIndent) 8\<close>, exactly one columns line with both fields is
  appended; otherwise a text line with the left text is appended if the left text is not
  empty, and then a columns line with an empty left field and the right text. The right
  text of every call in \<open>buildStandardReceiptLines\<close> is a formatted amount, a formatted
  amount after a minus sign, or a line returned by \<open>wrapTextToWidth\<close>, and none of these
  is empty after trimming.
\<close>

theorem responsive_columns:
  "(trim right \<noteq> [] \<longrightarrow>
      pushResponsiveColumns opts lines left right preset =
        lines @
        (if int (length (trim left)) + int (length (trim right)) + 2
              \<le> max (receiptWidth opts - receiptIndent opts) 8
         then [ColumnsLine (trim left) (trim right) (receiptIndent opts) (receiptWidth opts) preset]
         else (if trim left \<noteq> [] then [TextLine (trim left) preset None] else [])
              @ [ColumnsLine [] (trim right) (receiptIndent opts) (receiptWidth opts) preset]))
   \<and> trim (formatDisplayMoney numberToString opts x) \<noteq> []
   \<and> trim (asc ''-'' @ formatDisplayMoney numberToString opts x) \<noteq> []
   \<and> (\<forall>line\<in>set (wrapTextToWidth v width). trim line \<noteq> [])"
  using pushResponsiveColumns_cases [of opts lines left right preset]
    formatDisplayMoney_trim [of numberToString opts x]
    minus_formatDisplayMoney_trim [of numberToString opts x] wrap_lines_inked [of _ v width]
  by auto

lemma trim_extraordinary: "trim (asc ''extraordinary'') = asc ''extraordinary''"
  by (simp add: trim_def asc_def isSpace_def)

theorem responsive_columns_witness:
  "pushResponsiveColumns debtSale [] (asc '' Ara Toplam '') (asc ''50.00 TL'') None
     = [ColumnsLine (asc ''Ara Toplam'') (asc ''50.00 TL'') 1 32 None]
   \<and> pushResponsiveColumns narrowSale [] (asc '' Ara Toplam '') (asc ''50.00 TL'') None
     = [TextLine (asc ''Ara Toplam'') None None, ColumnsLine [] (asc ''50.00 TL'') 0 8 None]
   \<and> asc ''extraordinary'' \<in> set (wrapTextToWidth (asc '' a  extraordinary b '') 5)
   \<and> pushResponsiveColumns narrowSale [] [] (asc ''extraordinary'') None
     = [ColumnsLine [] (asc ''extraordinary'') 0 8 None]"
proof -
  have r: "trim (asc ''50.00 TL'') \<noteq> []" "length (asc ''50.00 TL'') = 8" "length (asc ''Ara Toplam'') = 10"
    "asc ''Ara Toplam'' \<noteq> []"
    unfolding trim_asc_amount by (simp_all add: asc_def)
  have f: "receiptWidth debtSale = 32" "receiptIndent debtSale = 1"
    "receiptWidth narrowSale = 8" "receiptIndent narrowSale = 0"
    by (simp_all add: debtSale_def narrowSale_def)
  have one: "pushResponsiveColumns debtSale [] (asc '' Ara Toplam '') (asc ''50.00 TL'') None
     = [ColumnsLine (asc ''Ara Toplam'') (asc ''50.00 TL'') 1 32 None]"
    using responsive_columns [of "asc ''50.00 TL''" debtSale "[]" "asc '' Ara Toplam ''" None] r
    by (simp add: trim_asc_AraToplam trim_asc_amount f)
  have two: "pushResponsiveColumns narrowSale [] (asc '' Ara Toplam '') (asc ''50.00 TL'') None
     = [TextLine (asc ''Ara Toplam'') None None, ColumnsLine [] (asc ''50.00 TL'') 0 8 None]"
    using responsive_columns [of "asc ''50.00 TL''" narrowSale "[]" "asc '' Ara Toplam ''" None] r
    by (simp add: trim_asc_AraToplam trim_asc_amount f)
  have member: "asc ''extraordinary'' \<in> set (wrapTextToWidth (asc '' a  extraordinary b '') 5)"
    using wrap_long [of "asc ''extraordinary''" "asc '' a  extraordinary b ''" 5]
    by (simp add: wordsOf_sample) (simp add: asc_def)
  have "trim (asc ''extraordinary'') \<noteq> []"
    using responsive_columns [of "[]" debtSale "[]" "[]" None wholeNumberString 0
        "asc '' a  extraordinary b ''" 5] member
    by blast
  then have three: "pushResponsiveColumns narrowSale [] [] (asc ''extraordinary'') None
     = [ColumnsLine [] (asc ''extraordinary'') 0 8 None]"
    using responsive_columns [of "asc ''extraordinary''" narrowSale "[]" "[]" None]
    by (simp add: trim_extraordinary f) (simp add: trim_def asc_def)
  from one two member three show ?thesis by blast
qed

end
